theory Spec2Isabelle
  imports Complex_Main "HOL-Library.Sublist"
begin

section \<open>fetch\_latest\_commits.py: the model\<close>

text \<open>
  The script \<^verbatim>\<open>scripts/fetch_latest_commits.py\<close> downloads \<^verbatim>\<open>latest_commits.txt\<close> for
  every (build, platform) pair from an HTTP artifact store, with bounded retries, and
  stores each body with a \<^verbatim>\<open>meta.json\<close>; failures are collected into
  \<^verbatim>\<open>fetch_errors.json\<close>.

  The embedding is a state-passing one. What the script does to the outside is kept in
  a \<open>world\<close>: the sequence of its observable actions (HTTP GETs, sleeps, printed lines)
  and the filesystem. What the outside answers is an \<open>env\<close>: the outcome of a request
  (which may depend on everything that happened before), the wall clock, the process
  environment and the \<^verbatim>\<open>pow\<close> of the C library. The interpreter is CPython 3.11 on
  Linux.

  \<open>main\<close> starts from the parsed command line: a command line that \<^verbatim>\<open>argparse\<close>
  rejects never reaches the code modelled here.

  Conventions.
  \<^item> Python \<^verbatim>\<open>str\<close> is \<open>string\<close>, a text that UTF-8 can encode (no lone surrogate);
    Python \<^verbatim>\<open>int\<close> is \<open>int\<close>. The loop counter \<^verbatim>\<open>attempt\<close> starts at 0 and is only
    ever incremented, so it is a \<open>nat\<close>.
  \<^item> A Python \<^verbatim>\<open>float\<close> is the rational number that the double stands for.
    \<^verbatim>\<open>BACKOFF_FACTOR ** attempt\<close> is computed by the \<^verbatim>\<open>pow\<close> of the C library, which
    is not part of the script: it belongs to the environment (\<open>libm_pow\<close>), and the
    range error of \<^verbatim>\<open>pow\<close> is Python's \<^verbatim>\<open>OverflowError\<close>.
  \<^item> \<^verbatim>\<open>time.sleep\<close> raises \<^verbatim>\<open>OverflowError\<close> for a duration whose nanoseconds do
    not fit a signed 64-bit integer and \<^verbatim>\<open>ValueError\<close> for a negative duration;
    otherwise it returns, and the sleep is an event of the trace.
  \<^item> \<^verbatim>\<open>session.get\<close> returns a response, raises
    \<^verbatim>\<open>requests.exceptions.RequestException\<close> (the base class of the exceptions of
    \<^verbatim>\<open>requests\<close>, the only exception that \<^verbatim>\<open>fetch_url\<close> catches), or raises some other
    exception, for instance \<^verbatim>\<open>UnicodeEncodeError\<close> for a token or a password with a
    character outside Latin-1.
  \<^item> An exception that the script does not catch ends the process. \<^verbatim>\<open>print\<close> is taken
    to return.
  \<^item> Paths are those of \<^verbatim>\<open>pathlib\<close> on POSIX. The filesystem is a tree of
    directories and regular files without symbolic links. A filesystem call raises
    \<^verbatim>\<open>OSError\<close> exactly when the state of that tree makes it (a missing directory, a
    regular file where a directory is needed, a directory where a file is written);
    permissions, quotas, limits on the length of a name and hardware faults are not
    modelled. The operating system
    reads the component \<^verbatim>\<open>..\<close> as the parent directory; the model looks every
    component up as a name, so it describes the filesystem calls for paths without
    \<^verbatim>\<open>..\<close> only.
  \<^item> \<^verbatim>\<open>json.dumps(v, indent=2)\<close> followed by \<^verbatim>\<open>write_text\<close> stores the JSON value \<open>v\<close>;
    the rendering of the value as text is the standard library's and is not modelled.
\<close>

subsection \<open>Strings\<close>

text \<open>\<^verbatim>\<open>s.rstrip(c)\<close> for a single character \<open>c\<close>.\<close>

definition rstrip :: "char \<Rightarrow> string \<Rightarrow> string" where
  "rstrip c s = rev (dropWhile (\<lambda>x. x = c) (rev s))"

text \<open>\<^verbatim>\<open>s.split(c)\<close> for a single character \<open>c\<close>.\<close>

fun split_on :: "char \<Rightarrow> string \<Rightarrow> string list" where
  "split_on c [] = [[]]"
| "split_on c (x # xs) =
     (if x = c then [] # split_on c xs
      else (case split_on c xs of
              [] \<Rightarrow> [[x]]
            | w # ws \<Rightarrow> (x # w) # ws))"

text \<open>\<^verbatim>\<open>sep.join(xs)\<close>.\<close>

fun join :: "string \<Rightarrow> string list \<Rightarrow> string" where
  "join sep [] = []"
| "join sep [x] = x"
| "join sep (x # y # ys) = x @ sep @ join sep (y # ys)"

text \<open>\<^verbatim>\<open>str(n)\<close> for an integer, as the f-strings of the script render it.\<close>

definition digit_char :: "nat \<Rightarrow> char" where
  "digit_char d = ''0123456789'' ! d"

fun str_nat :: "nat \<Rightarrow> string" where
  "str_nat n = (if n < 10 then [digit_char n] else str_nat (n div 10) @ [digit_char (n mod 10)])"

declare str_nat.simps [simp del]

definition str_int :: "int \<Rightarrow> string" where
  "str_int i = (if i < 0 then CHR ''-'' # str_nat (nat (- i)) else str_nat (nat i))"

text \<open>\<^verbatim>\<open>"%0wd" % n\<close> for a natural number: zero padded to at least \<open>w\<close> digits.\<close>

definition zero_pad :: "nat \<Rightarrow> nat \<Rightarrow> string" where
  "zero_pad w n = replicate (w - length (str_nat n)) (CHR ''0'') @ str_nat n"

text \<open>Python's truth value of an optional string: \<^verbatim>\<open>None\<close> and \<^verbatim>\<open>""\<close> are false.\<close>

definition truthy :: "string option \<Rightarrow> bool" where
  "truthy s = (case s of None \<Rightarrow> False | Some v \<Rightarrow> v \<noteq> [])"

subsection \<open>Constants and the URL builder\<close>

definition DEFAULT_RETRIES :: int where
  "DEFAULT_RETRIES = 3"

definition BACKOFF_FACTOR :: rat where
  "BACKOFF_FACTOR = 3 / 2"

definition TIMEOUT :: nat where
  "TIMEOUT = 30"

definition build_target_url :: "string \<Rightarrow> string \<Rightarrow> string \<Rightarrow> string" where
  "build_target_url base_url build platform =
     (let base = rstrip (CHR ''/'') base_url
      in base @ ''/'' @ build @ ''/'' @ platform @ ''/latest_commits.txt'')"

subsection \<open>Paths and the filesystem\<close>

text \<open>
  A \<^verbatim>\<open>pathlib.PurePosixPath\<close>: its root (\<^verbatim>\<open>""\<close>, \<^verbatim>\<open>"/"\<close> or \<^verbatim>\<open>"//"\<close>) and its
  components. \<open>Path\<close> parses a string as the constructor does: empty components and
  \<^verbatim>\<open>.\<close> are dropped.
\<close>

datatype path = PosixPath (anchor: string) (names: "string list")

definition splitroot :: "string \<Rightarrow> string \<times> string" where
  "splitroot p =
     (if take 1 p \<noteq> ''/'' then ([], p)
      else if take 1 (drop 1 p) \<noteq> ''/'' \<or> take 1 (drop 2 p) = ''/'' then (''/'', drop 1 p)
      else (''//'', drop 2 p))"

definition Path :: "string \<Rightarrow> path" where
  "Path s = (case splitroot s of
               (r, rel) \<Rightarrow> PosixPath r (filter (\<lambda>x. x \<noteq> [] \<and> x \<noteq> ''.'') (split_on (CHR ''/'') rel)))"

text \<open>\<^verbatim>\<open>p / s\<close>: a segment that starts with \<^verbatim>\<open>/\<close> replaces everything before it.\<close>

definition joinpath :: "path \<Rightarrow> string \<Rightarrow> path" where
  "joinpath p s =
     (if take 1 s = ''/'' then Path s
      else PosixPath (anchor p) (names p @ names (Path s)))"

definition parent :: "path \<Rightarrow> path" where
  "parent p = PosixPath (anchor p) (butlast (names p))"

definition str_path :: "path \<Rightarrow> string" where
  "str_path p =
     (if anchor p = [] \<and> names p = [] then ''.''
      else anchor p @ join ''/'' (names p))"

datatype json = JString string | JObject "(string \<times> json) list" | JArray "json list"

datatype content = Text string | Json json

datatype node = Directory | File content

type_synonym filesystem = "path \<rightharpoonup> node"

text \<open>
  The exceptions that reach the script: the subclasses of \<^verbatim>\<open>OSError\<close> that the
  filesystem calls raise, the exceptions of \<^verbatim>\<open>**\<close> and \<^verbatim>\<open>time.sleep\<close>, and whatever
  \<^verbatim>\<open>session.get\<close> raises (any other class by its name).
\<close>

datatype exception =
    FileNotFoundError | FileExistsError | NotADirectoryError | IsADirectoryError
  | OverflowError | ValueError | UnicodeEncodeError | OtherException string

text \<open>
  The operating system resolving a directory path component by component (the root
  and the current directory, the paths with no component, always exist):
  \<open>resolve fs r seen todo\<close> has walked \<open>seen\<close> and still has \<open>todo\<close> to walk.
\<close>

fun resolve :: "filesystem \<Rightarrow> string \<Rightarrow> string list \<Rightarrow> string list \<Rightarrow> exception option" where
  "resolve fs r seen [] = None"
| "resolve fs r seen (n # ns) =
     (case fs (PosixPath r (seen @ [n])) of
        None \<Rightarrow> Some FileNotFoundError
      | Some (File c) \<Rightarrow> Some NotADirectoryError
      | Some Directory \<Rightarrow> resolve fs r (seen @ [n]) ns)"

text \<open>
  \<^verbatim>\<open>p.mkdir(parents=True, exist_ok=True)\<close>: every missing directory on the way to \<open>p\<close>,
  and \<open>p\<close> itself, is created; directories that exist are left alone; a regular file on
  the way raises (\<^verbatim>\<open>NotADirectoryError\<close>, or \<^verbatim>\<open>FileExistsError\<close> when the file is
  \<open>p\<close> itself), and then nothing has been created, since nothing exists below a file.
\<close>

fun makedirs :: "filesystem \<Rightarrow> string \<Rightarrow> string list \<Rightarrow> string list \<Rightarrow> exception + filesystem" where
  "makedirs fs r seen [] = Inr fs"
| "makedirs fs r seen (n # ns) =
     (case fs (PosixPath r (seen @ [n])) of
        None \<Rightarrow> makedirs (fs(PosixPath r (seen @ [n]) \<mapsto> Directory)) r (seen @ [n]) ns
      | Some Directory \<Rightarrow> makedirs fs r (seen @ [n]) ns
      | Some (File c) \<Rightarrow> Inl (if ns = [] then FileExistsError else NotADirectoryError))"

definition mkdir_parents :: "path \<Rightarrow> filesystem \<Rightarrow> exception + filesystem" where
  "mkdir_parents p fs = makedirs fs (anchor p) [] (names p)"

text \<open>
  \<^verbatim>\<open>p.write_text(data)\<close>: the file is created or truncated and \<open>data\<close> written. The
  directory of \<open>p\<close> must exist; \<open>p\<close> must not be a directory.
\<close>

definition write_text :: "path \<Rightarrow> content \<Rightarrow> filesystem \<Rightarrow> exception + filesystem" where
  "write_text p data fs =
     (if names p = [] then Inl IsADirectoryError
      else (case resolve fs (anchor p) [] (butlast (names p)) of
              Some e \<Rightarrow> Inl e
            | None \<Rightarrow>
                (case fs p of
                   Some Directory \<Rightarrow> Inl IsADirectoryError
                 | _ \<Rightarrow> Inr (fs(p \<mapsto> File data)))))"

text \<open>
  Reading back what was written. \<^verbatim>\<open>p.read_bytes()\<close> gives the content of the file as
  it is stored (for a text, the bytes that encode it).
  \<^verbatim>\<open>p.read_text(encoding="utf-8")\<close> decodes them and, as every text-mode read of Python
  does, replaces each line ending \<^verbatim>\<open>\r\n\<close> or \<^verbatim>\<open>\r\<close> by \<^verbatim>\<open>\n\<close>.
\<close>

definition read_bytes :: "path \<Rightarrow> filesystem \<Rightarrow> exception + content" where
  "read_bytes p fs =
     (if names p = [] then Inl IsADirectoryError
      else (case resolve fs (anchor p) [] (butlast (names p)) of
              Some e \<Rightarrow> Inl e
            | None \<Rightarrow>
                (case fs p of
                   None \<Rightarrow> Inl FileNotFoundError
                 | Some Directory \<Rightarrow> Inl IsADirectoryError
                 | Some (File data) \<Rightarrow> Inr data)))"

fun universal_newlines :: "string \<Rightarrow> string" where
  "universal_newlines [] = []"
| "universal_newlines (x # xs) =
     (if x = CHR 0x0D then
        (case xs of
           [] \<Rightarrow> [CHR 0x0A]
         | y # ys \<Rightarrow> if y = CHR 0x0A then CHR 0x0A # universal_newlines ys
                     else CHR 0x0A # universal_newlines xs)
      else x # universal_newlines xs)"

definition read_text :: "path \<Rightarrow> filesystem \<Rightarrow> exception + content" where
  "read_text p fs =
     (case read_bytes p fs of
        Inl e \<Rightarrow> Inl e
      | Inr (Text s) \<Rightarrow> Inr (Text (universal_newlines s))
      | Inr (Json v) \<Rightarrow> Inr (Json v))"

subsection \<open>The world\<close>

type_synonym headers = "(string \<times> string) list"

record request =
  req_url :: string
  req_auth :: "(string \<times> string) option"
  req_headers :: headers
  req_timeout :: nat

text \<open>
  What a call of \<^verbatim>\<open>session.get\<close> does: it returns a response, raises a
  \<^verbatim>\<open>RequestException\<close>, or raises an exception that is not one. Whatever it does, the
  call is an event of the trace (\<open>HttpGet\<close>): a network attempt.
\<close>

datatype outcome =
    Response (status_code: int) (resp_text: string) (resp_headers: headers)
  | RequestException
  | Raised exception

datatype event = HttpGet request | Sleep rat | Stdout string | Stderr string

text \<open>
  A \<^verbatim>\<open>datetime\<close>: the calendar fields and the offset of its \<^verbatim>\<open>tzinfo\<close> from UTC, a
  \<^verbatim>\<open>timedelta\<close>, in microseconds.
\<close>

record datetime =
  year :: nat
  month :: nat
  day :: nat
  hour :: nat
  minute :: nat
  second :: nat
  microsecond :: nat
  utcoffset :: int

record env =
  respond :: "event list \<Rightarrow> request \<Rightarrow> outcome"
  wall_clock :: "event list \<Rightarrow> int \<Rightarrow> datetime"
  environ :: "string \<rightharpoonup> string"
  libm_pow :: "rat \<Rightarrow> nat \<Rightarrow> rat option"

record world =
  trace :: "event list"
  files :: filesystem

definition emit :: "event \<Rightarrow> world \<Rightarrow> world" where
  "emit e w = w\<lparr>trace := trace w @ [e]\<rparr>"

definition session_get :: "env \<Rightarrow> request \<Rightarrow> world \<Rightarrow> outcome \<times> world" where
  "session_get ev req w = (respond ev (trace w) req, emit (HttpGet req) w)"

text \<open>
  An exception that nothing catches ends the process; the result then carries the
  exception and the world as it was left.
\<close>

type_synonym 'a raising = "(exception \<times> world) + 'a"

text \<open>
  \<^verbatim>\<open>x ** n\<close> for a float \<open>x\<close> and an integer \<open>n \<ge> 1\<close>: the \<^verbatim>\<open>pow\<close> of the C library,
  whose range error (no value) raises \<^verbatim>\<open>OverflowError\<close>.
\<close>

definition float_pow :: "env \<Rightarrow> rat \<Rightarrow> nat \<Rightarrow> exception + rat" where
  "float_pow ev x n = (case libm_pow ev x n of None \<Rightarrow> Inl OverflowError | Some y \<Rightarrow> Inr y)"

text \<open>
  \<^verbatim>\<open>time.sleep(secs)\<close>: CPython converts the duration to nanoseconds in a signed 64-bit
  integer and raises \<^verbatim>\<open>OverflowError\<close> when they do not fit; then it rejects a negative
  duration with \<^verbatim>\<open>ValueError\<close>. From \<open>1.5 ^ 57\<close> on the nanoseconds do not fit:
  \<open>1.5 ^ 56\<close> is about \<open>7.3 * 10 ^ 9\<close> seconds, the limit about \<open>9.2 * 10 ^ 9\<close>,
  \<open>1.5 ^ 57\<close> about \<open>1.1 * 10 ^ 10\<close>. (The conversion rounds, and for a duration
  within the uptime of the machine below the limit the system call fails; no sleep of
  this script is that near to the limit.)
\<close>

definition time_sleep :: "rat \<Rightarrow> world \<Rightarrow> world raising" where
  "time_sleep secs w =
     (if secs * 10 ^ 9 < - (2 ^ 63) \<or> 2 ^ 63 \<le> secs * 10 ^ 9 then Inl (OverflowError, w)
      else if secs < 0 then Inl (ValueError, w)
      else Inr (emit (Sleep secs) w))"

definition print_out :: "string \<Rightarrow> world \<Rightarrow> world" where
  "print_out s w = emit (Stdout s) w"

definition print_err :: "string \<Rightarrow> world \<Rightarrow> world" where
  "print_err s w = emit (Stderr s) w"

subsection \<open>fetch\_url\<close>

text \<open>
  The result of \<^verbatim>\<open>fetch_url\<close> is the triple \<^verbatim>\<open>(content, status, headers)\<close>, each
  component possibly \<^verbatim>\<open>None\<close>. \<open>fetch_loop\<close> is the \<^verbatim>\<open>while attempt < retries\<close>
  loop, entered with the current value of \<^verbatim>\<open>attempt\<close>. The \<^verbatim>\<open>except\<close> clause catches
  the \<^verbatim>\<open>RequestException\<close> of \<^verbatim>\<open>session.get\<close>; every other exception raised in the
  loop, those of the two backoff statements included, leaves \<^verbatim>\<open>fetch_url\<close>.
\<close>

type_synonym fetch_result = "string option \<times> int option \<times> headers option"

function fetch_loop ::
  "env \<Rightarrow> request \<Rightarrow> int \<Rightarrow> nat \<Rightarrow> world \<Rightarrow> (fetch_result \<times> world) raising" where
  "fetch_loop ev req retries attempt w =
     (if int attempt < retries then
        (case session_get ev req w of
           (Response status txt hdrs, w1) \<Rightarrow>
             if status = 200 then Inr ((Some txt, Some status, Some hdrs), w1)
             else if status = 401 \<or> status = 403 then Inr ((None, Some status, Some hdrs), w1)
             else (case float_pow ev BACKOFF_FACTOR (attempt + 1) of
                     Inl x \<Rightarrow> Inl (x, w1)
                   | Inr sleep \<Rightarrow>
                       (case time_sleep sleep w1 of
                          Inl e \<Rightarrow> Inl e
                        | Inr w2 \<Rightarrow> fetch_loop ev req retries (attempt + 1) w2))
         | (RequestException, w1) \<Rightarrow>
             (case float_pow ev BACKOFF_FACTOR (attempt + 1) of
                Inl x \<Rightarrow> Inl (x, w1)
              | Inr sleep \<Rightarrow>
                  (case time_sleep sleep w1 of
                     Inl e \<Rightarrow> Inl e
                   | Inr w2 \<Rightarrow> fetch_loop ev req retries (attempt + 1) w2))
         | (Raised x, w1) \<Rightarrow> Inl (x, w1))
      else Inr ((None, None, None), w))"
  by pat_completeness auto
termination
  by (relation "measure (\<lambda>(ev, req, retries, attempt, w). nat (retries - int attempt))") auto

declare fetch_loop.simps [simp del]

definition fetch_url ::
  "env \<Rightarrow> string \<Rightarrow> (string \<times> string) option \<Rightarrow> headers \<Rightarrow> int \<Rightarrow> nat \<Rightarrow> world
     \<Rightarrow> (fetch_result \<times> world) raising" where
  "fetch_url ev url auth hdrs retries timeout w =
     fetch_loop ev \<lparr>req_url = url, req_auth = auth, req_headers = hdrs, req_timeout = timeout\<rparr>
       retries 0 w"

subsection \<open>Persistence\<close>

definition write_file :: "path \<Rightarrow> string \<Rightarrow> world \<Rightarrow> world raising" where
  "write_file p content w =
     (case mkdir_parents (parent p) (files w) of
        Inl e \<Rightarrow> Inl (e, w)
      | Inr fs1 \<Rightarrow>
          (case write_text p (Text content) fs1 of
             Inl e \<Rightarrow> Inl (e, w\<lparr>files := fs1\<rparr>)
           | Inr fs2 \<Rightarrow> Inr (w\<lparr>files := fs2\<rparr>)))"

text \<open>
  \<^verbatim>\<open>timedelta(hours=h, minutes=m)\<close> in microseconds; \<^verbatim>\<open>timezone(d)\<close> is the fixed
  offset \<open>d\<close>; \<^verbatim>\<open>datetime.now(tz)\<close> reads the clock in that zone: the calendar fields
  are the environment's, the offset is that of \<open>tz\<close>.
\<close>

definition timedelta :: "int \<Rightarrow> int \<Rightarrow> int" where
  "timedelta hours minutes = (hours * 3600 + minutes * 60) * 1000000"

definition timezone :: "int \<Rightarrow> int" where
  "timezone offset = offset"

definition datetime_now :: "env \<Rightarrow> int \<Rightarrow> world \<Rightarrow> datetime" where
  "datetime_now ev tz w = (wall_clock ev (trace w) tz)\<lparr>utcoffset := tz\<rparr>"

text \<open>\<^verbatim>\<open>datetime.isoformat()\<close> with its helpers \<^verbatim>\<open>_format_time\<close> and \<^verbatim>\<open>_format_offset\<close>.\<close>

definition format_time :: "nat \<Rightarrow> nat \<Rightarrow> nat \<Rightarrow> nat \<Rightarrow> string" where
  "format_time hh mm ss us =
     zero_pad 2 hh @ '':'' @ zero_pad 2 mm @ '':'' @ zero_pad 2 ss
       @ (if us \<noteq> 0 then ''.'' @ zero_pad 6 us else [])"

definition format_offset :: "int \<Rightarrow> string" where
  "format_offset off =
     (let sign = (if off < 0 then ''-'' else ''+'');
          a = nat \<bar>off\<bar>;
          hh = a div 3600000000;
          mm = (a mod 3600000000) div 60000000;
          ss = (a mod 3600000000) mod 60000000
      in sign @ zero_pad 2 hh @ '':'' @ zero_pad 2 mm
           @ (if ss \<noteq> 0
              then '':'' @ zero_pad 2 (ss div 1000000)
                     @ (if ss mod 1000000 \<noteq> 0 then ''.'' @ zero_pad 6 (ss mod 1000000) else [])
              else []))"

definition isoformat :: "datetime \<Rightarrow> string" where
  "isoformat dt =
     zero_pad 4 (year dt) @ ''-'' @ zero_pad 2 (month dt) @ ''-'' @ zero_pad 2 (day dt) @ ''T''
       @ format_time (hour dt) (minute dt) (second dt) (microsecond dt)
       @ format_offset (utcoffset dt)"

text \<open>The dictionary \<^verbatim>\<open>meta\<close> of \<^verbatim>\<open>write_meta\<close>, in insertion order.\<close>

definition meta_record :: "env \<Rightarrow> string \<Rightarrow> string \<Rightarrow> string \<Rightarrow> world \<Rightarrow> (string \<times> json) list" where
  "meta_record ev build platform source_url w =
     [(''build'', JString build),
      (''platform'', JString platform),
      (''fetched_at'', JString (isoformat (datetime_now ev (timezone (timedelta 5 30)) w))),
      (''source_url'', JString source_url)]"

definition write_meta :: "env \<Rightarrow> path \<Rightarrow> string \<Rightarrow> string \<Rightarrow> string \<Rightarrow> world \<Rightarrow> world raising" where
  "write_meta ev p build platform source_url w =
     (let meta = meta_record ev build platform source_url w;
          meta_path = joinpath (parent p) ''meta.json''
      in case write_text meta_path (Json (JObject meta)) (files w) of
           Inl e \<Rightarrow> Inl (e, w)
         | Inr fs1 \<Rightarrow> Inr (w\<lparr>files := fs1\<rparr>))"

subsection \<open>The driver\<close>

text \<open>The parsed command line (\<^verbatim>\<open>args\<close>).\<close>

record args =
  base_url :: string
  builds :: "string list"
  platforms :: "string list"
  out :: string
  user :: "string option"
  password :: "string option"
  retries :: int

text \<open>
  The variables of \<^verbatim>\<open>main\<close> that the loop updates: the list \<^verbatim>\<open>errors\<close> of
  dictionaries, \<^verbatim>\<open>success_count\<close>, and the world.
\<close>

type_synonym error_record = "(string \<times> string) list"

record run_state =
  errors :: "error_record list"
  success_count :: nat
  world :: world

definition str_status :: "int option \<Rightarrow> string" where
  "str_status status = (case status of None \<Rightarrow> ''None'' | Some i \<Rightarrow> str_int i)"

definition local_path_of :: "path \<Rightarrow> string \<Rightarrow> string \<Rightarrow> path" where
  "local_path_of out_root build plat =
     joinpath (joinpath (joinpath out_root build) plat) ''latest_commits.txt''"

definition error_record :: "string \<Rightarrow> string \<Rightarrow> string \<Rightarrow> string \<Rightarrow> error_record" where
  "error_record build plat target_url msg =
     [(''build'', build), (''platform'', plat), (''url'', target_url), (''error'', msg)]"

text \<open>The body of the inner loop: one job.\<close>

definition process_job ::
  "env \<Rightarrow> string \<Rightarrow> path \<Rightarrow> (string \<times> string) option \<Rightarrow> headers \<Rightarrow> int
     \<Rightarrow> string \<Rightarrow> string \<Rightarrow> run_state \<Rightarrow> run_state raising" where
  "process_job ev base out_root auth hdrs r build plat st =
     (let target_url = build_target_url base build plat;
          local_path = local_path_of out_root build plat;
          w1 = print_out (''Fetching: '' @ target_url @ '' -> '' @ str_path local_path) (world st)
      in case fetch_url ev target_url auth hdrs r TIMEOUT w1 of
           Inl e \<Rightarrow> Inl e
         | Inr ((None, status, rh), w2) \<Rightarrow>
             if status = Some 401 \<or> status = Some 403 then
               (let msg = ''AUTH ERROR '' @ str_status status @ '' fetching '' @ target_url
                in Inr (st\<lparr>errors := errors st @ [error_record build plat target_url msg],
                           world := print_err msg w2\<rparr>))
             else
               (let msg = ''FAILED to fetch '' @ target_url @ '' after '' @ str_int r @ '' attempts''
                in Inr (st\<lparr>errors := errors st @ [error_record build plat target_url msg],
                           world := print_err msg w2\<rparr>))
         | Inr ((Some content, status, rh), w2) \<Rightarrow>
             (case write_file local_path content w2 of
                Inl e \<Rightarrow> Inl e
              | Inr w3 \<Rightarrow>
                  (case write_meta ev local_path build plat target_url w3 of
                     Inl e \<Rightarrow> Inl e
                   | Inr w4 \<Rightarrow>
                       Inr (st\<lparr>success_count := success_count st + 1,
                               world := print_out (''Saved '' @ str_path local_path @ '' (''
                                          @ str_nat (length content) @ '' bytes)'') w4\<rparr>))))"

fun platforms_loop ::
  "env \<Rightarrow> string \<Rightarrow> path \<Rightarrow> (string \<times> string) option \<Rightarrow> headers \<Rightarrow> int
     \<Rightarrow> string \<Rightarrow> string list \<Rightarrow> run_state \<Rightarrow> run_state raising" where
  "platforms_loop ev base out_root auth hdrs r build [] st = Inr st"
| "platforms_loop ev base out_root auth hdrs r build (plat # rest) st =
     (case process_job ev base out_root auth hdrs r build plat st of
        Inl e \<Rightarrow> Inl e
      | Inr st' \<Rightarrow> platforms_loop ev base out_root auth hdrs r build rest st')"

fun builds_loop ::
  "env \<Rightarrow> string \<Rightarrow> path \<Rightarrow> (string \<times> string) option \<Rightarrow> headers \<Rightarrow> int
     \<Rightarrow> string list \<Rightarrow> string list \<Rightarrow> run_state \<Rightarrow> run_state raising" where
  "builds_loop ev base out_root auth hdrs r [] plats st = Inr st"
| "builds_loop ev base out_root auth hdrs r (build # rest) plats st =
     (case platforms_loop ev base out_root auth hdrs r build plats st of
        Inl e \<Rightarrow> Inl e
      | Inr st' \<Rightarrow> builds_loop ev base out_root auth hdrs r rest plats st')"

text \<open>
  How the process ends: \<^verbatim>\<open>sys.exit(code)\<close>, or an exception nobody catches (the
  interpreter prints the traceback and the exit status is 1).
\<close>

datatype ending = Exit int | Uncaught exception

definition exit_status :: "ending \<Rightarrow> int" where
  "exit_status e = (case e of Exit code \<Rightarrow> code | Uncaught x \<Rightarrow> 1)"

definition warning_text :: string where
  "warning_text = ''Warning: No ARTIFACTORY_TOKEN found. Provide --user/--password for Basic auth or set ARTIFACTORY_TOKEN env var.''"

definition dict_json :: "error_record \<Rightarrow> json" where
  "dict_json d = JObject (map (\<lambda>(k, v). (k, JString v)) d)"

definition main :: "env \<Rightarrow> args \<Rightarrow> world \<Rightarrow> ending \<times> world" where
  "main ev a w0 =
     (let token = environ ev ''ARTIFACTORY_TOKEN'';
          use_token = truthy token;
          w1 = (if \<not> use_token \<and> (\<not> truthy (user a) \<or> \<not> truthy (password a))
                then print_err warning_text w0 else w0);
          hdrs = (case token of
                    Some t \<Rightarrow> if use_token then [(''Authorization'', ''Bearer '' @ t)] else []
                  | None \<Rightarrow> []);
          auth = (if use_token then None
                  else (case (user a, password a) of
                          (Some u, Some p) \<Rightarrow> if u \<noteq> [] \<and> p \<noteq> [] then Some (u, p) else None
                        | _ \<Rightarrow> None));
          base = rstrip (CHR ''/'') (base_url a);
          out_root = Path (out a)
      in case builds_loop ev base out_root auth hdrs (retries a) (builds a) (platforms a)
                \<lparr>errors = [], success_count = 0, world = w1\<rparr> of
           Inl (e, w) \<Rightarrow> (Uncaught e, w)
         | Inr st \<Rightarrow>
             (let w2 = print_out (''\<newline>Completed. Successful files: ''
                                    @ str_nat (success_count st) @ ''. Errors: ''
                                    @ str_nat (length (errors st))) (world st)
              in if errors st \<noteq> [] then
                   (let err_path = joinpath out_root ''fetch_errors.json''
                    in case write_text err_path (Json (JArray (map dict_json (errors st)))) (files w2) of
                         Inl e \<Rightarrow> (Uncaught e, w2)
                       | Inr fs1 \<Rightarrow>
                           (Exit 2, print_err (''Errors written to '' @ str_path err_path)
                                      (w2\<lparr>files := fs1\<rparr>)))
                 else (Exit 0, w2)))"

section \<open>Observations\<close>

text \<open>
  What a run added to the trace, and the requests and the sleeps among some events.
\<close>

definition added_events :: "world \<Rightarrow> world \<Rightarrow> event list" where
  "added_events w w' = drop (length (trace w)) (trace w')"

fun http_gets :: "event list \<Rightarrow> request list" where
  "http_gets [] = []"
| "http_gets (HttpGet q # es) = q # http_gets es"
| "http_gets (e # es) = http_gets es"

fun sleeps :: "event list \<Rightarrow> rat list" where
  "sleeps [] = []"
| "sleeps (Sleep d # es) = d # sleeps es"
| "sleeps (e # es) = sleeps es"

text \<open>
  The request that \<^verbatim>\<open>fetch_url\<close> sends, and the outcomes that it retries: a status other
  than 200, 401 and 403, or a \<^verbatim>\<open>RequestException\<close>. \<open>backoff_duration ev k\<close> is the
  value of \<^verbatim>\<open>BACKOFF_FACTOR ** k\<close> where it has one, and \<open>retry_events ev req a n\<close> are
  the events of the attempts \<open>a + 1\<close>, ..., \<open>n\<close> when each of them fails transiently and
  is followed by its sleep. \<open>world_of\<close> is the world in which a call has ended, by a
  return or by an exception.
\<close>

definition request_of :: "string \<Rightarrow> (string \<times> string) option \<Rightarrow> headers \<Rightarrow> nat \<Rightarrow> request" where
  "request_of url auth hdrs timeout =
     \<lparr>req_url = url, req_auth = auth, req_headers = hdrs, req_timeout = timeout\<rparr>"

definition transient :: "outcome \<Rightarrow> bool" where
  "transient x = (case x of
                    Response status txt hdrs \<Rightarrow> status \<noteq> 200 \<and> status \<noteq> 401 \<and> status \<noteq> 403
                  | RequestException \<Rightarrow> True
                  | Raised e \<Rightarrow> False)"

definition backoff_duration :: "env \<Rightarrow> nat \<Rightarrow> rat" where
  "backoff_duration ev k = (case libm_pow ev BACKOFF_FACTOR k of None \<Rightarrow> 0 | Some d \<Rightarrow> d)"

definition retry_events :: "env \<Rightarrow> request \<Rightarrow> nat \<Rightarrow> nat \<Rightarrow> event list" where
  "retry_events ev req a n =
     concat (map (\<lambda>k. [HttpGet req, Sleep (backoff_duration ev k)]) [Suc a..<Suc n])"

definition world_of :: "('a \<times> world) raising \<Rightarrow> world" where
  "world_of x = (case x of Inl (e, w) \<Rightarrow> w | Inr (v, w) \<Rightarrow> w)"

text \<open>
  What the proofs need of the C library's \<^verbatim>\<open>pow\<close> for the powers \<open>1.5 ^ 1\<close>, ...,
  \<open>1.5 ^ n\<close>: it has a value, the value is the power itself where that is a double
  (up to \<open>1.5 ^ 33\<close>, since \<open>3 ^ 33 < 2 ^ 53\<close>), and everywhere it is within one unit in
  the last place of it (a relative error of at most \<open>2 ^ -52\<close>).
\<close>

definition pow_accurate :: "env \<Rightarrow> nat \<Rightarrow> bool" where
  "pow_accurate ev n =
     list_all (\<lambda>k. case libm_pow ev BACKOFF_FACTOR k of
                     None \<Rightarrow> False
                   | Some d \<Rightarrow> \<bar>d - BACKOFF_FACTOR ^ k\<bar> * 2 ^ 52 \<le> BACKOFF_FACTOR ^ k
                               \<and> (k \<le> 33 \<longrightarrow> d = BACKOFF_FACTOR ^ k))
       [1..<Suc n]"

text \<open>
  One job: its fetch (the first two statements of the loop body), the path of its
  \<^verbatim>\<open>meta.json\<close>, and the message that the driver records when the fetch has failed with
  the given status.
\<close>

definition job_fetch ::
  "env \<Rightarrow> string \<Rightarrow> path \<Rightarrow> (string \<times> string) option \<Rightarrow> headers \<Rightarrow> int
     \<Rightarrow> string \<Rightarrow> string \<Rightarrow> run_state \<Rightarrow> (fetch_result \<times> world) raising" where
  "job_fetch ev base out_root auth hdrs r build plat st =
     fetch_url ev (build_target_url base build plat) auth hdrs r TIMEOUT
       (print_out (''Fetching: '' @ build_target_url base build plat @ '' -> ''
                     @ str_path (local_path_of out_root build plat)) (world st))"

definition meta_path_of :: "path \<Rightarrow> string \<Rightarrow> string \<Rightarrow> path" where
  "meta_path_of out_root build plat = joinpath (parent (local_path_of out_root build plat)) ''meta.json''"

definition failure_message :: "string \<Rightarrow> int \<Rightarrow> int option \<Rightarrow> string" where
  "failure_message target_url r status =
     (if status = Some 401 \<or> status = Some 403
      then ''AUTH ERROR '' @ str_status status @ '' fetching '' @ target_url
      else ''FAILED to fetch '' @ target_url @ '' after '' @ str_int r @ '' attempts'')"

text \<open>
  The run: its first state; the two nested loops as one loop over the list of jobs
  (builds outer, platforms inner); the jobs that a run started, each with the state it
  started in; whether the fetch of a started job failed (\<^verbatim>\<open>fetch_url\<close> returned, without
  a body), the status it then returned and the record the driver then appends; and the
  part of \<^verbatim>\<open>main\<close> after the loops.
\<close>

definition initial_state :: "world \<Rightarrow> run_state" where
  "initial_state w = \<lparr>errors = [], success_count = 0, world = w\<rparr>"

type_synonym job = "string \<times> string"

fun run_jobs ::
  "env \<Rightarrow> string \<Rightarrow> path \<Rightarrow> (string \<times> string) option \<Rightarrow> headers \<Rightarrow> int
     \<Rightarrow> job list \<Rightarrow> run_state \<Rightarrow> run_state raising" where
  "run_jobs ev base out_root auth hdrs r [] st = Inr st"
| "run_jobs ev base out_root auth hdrs r ((b, p) # js) st =
     (case process_job ev base out_root auth hdrs r b p st of
        Inl e \<Rightarrow> Inl e
      | Inr st1 \<Rightarrow> run_jobs ev base out_root auth hdrs r js st1)"

fun job_log ::
  "env \<Rightarrow> string \<Rightarrow> path \<Rightarrow> (string \<times> string) option \<Rightarrow> headers \<Rightarrow> int
     \<Rightarrow> job list \<Rightarrow> run_state \<Rightarrow> (job \<times> run_state) list" where
  "job_log ev base out_root auth hdrs r [] st = []"
| "job_log ev base out_root auth hdrs r ((b, p) # js) st =
     ((b, p), st) #
       (case process_job ev base out_root auth hdrs r b p st of
          Inl e \<Rightarrow> []
        | Inr st1 \<Rightarrow> job_log ev base out_root auth hdrs r js st1)"

definition job_failed ::
  "env \<Rightarrow> string \<Rightarrow> path \<Rightarrow> (string \<times> string) option \<Rightarrow> headers \<Rightarrow> int
     \<Rightarrow> job \<times> run_state \<Rightarrow> bool" where
  "job_failed ev base out_root auth hdrs r x =
     (case x of ((b, p), st) \<Rightarrow>
        (case job_fetch ev base out_root auth hdrs r b p st of
           Inl e \<Rightarrow> False
         | Inr ((content, status, rh), w) \<Rightarrow> content = None))"

definition job_status ::
  "env \<Rightarrow> string \<Rightarrow> path \<Rightarrow> (string \<times> string) option \<Rightarrow> headers \<Rightarrow> int
     \<Rightarrow> job \<times> run_state \<Rightarrow> int option" where
  "job_status ev base out_root auth hdrs r x =
     (case x of ((b, p), st) \<Rightarrow>
        (case job_fetch ev base out_root auth hdrs r b p st of
           Inl e \<Rightarrow> None
         | Inr ((content, status, rh), w) \<Rightarrow> status))"

definition job_error_record ::
  "env \<Rightarrow> string \<Rightarrow> path \<Rightarrow> (string \<times> string) option \<Rightarrow> headers \<Rightarrow> int
     \<Rightarrow> job \<times> run_state \<Rightarrow> error_record" where
  "job_error_record ev base out_root auth hdrs r x =
     (case x of ((b, p), st) \<Rightarrow>
        error_record b p (build_target_url base b p)
          (failure_message (build_target_url base b p) r
             (job_status ev base out_root auth hdrs r ((b, p), st))))"

definition report :: "path \<Rightarrow> run_state \<Rightarrow> ending \<times> world" where
  "report out_root st =
     (let w2 = print_out (''\<newline>Completed. Successful files: ''
                            @ str_nat (success_count st) @ ''. Errors: ''
                            @ str_nat (length (errors st))) (world st)
      in if errors st \<noteq> [] then
           (let err_path = joinpath out_root ''fetch_errors.json''
            in case write_text err_path (Json (JArray (map dict_json (errors st)))) (files w2) of
                 Inl e \<Rightarrow> (Uncaught e, w2)
               | Inr fs1 \<Rightarrow>
                   (Exit 2, print_err (''Errors written to '' @ str_path err_path)
                              (w2\<lparr>files := fs1\<rparr>)))
         else (Exit 0, w2))"

text \<open>
  Concrete environments for examples: a clock that always shows 2024-01-02 03:04:05 and
  one that always shows 2025-06-07 08:09:10, a \<^verbatim>\<open>pow\<close> without rounding error (as the
  C library's is for the powers of 1.5 up to the 33rd), a server that always gives the
  same outcome, a server that answers 403 for one URL and
  200 for all others, a world with an empty trace and an empty filesystem, a world in
  which \<^verbatim>\<open>out\<close> is a regular file, and a command line with the default \<^verbatim>\<open>--out\<close> and
  \<^verbatim>\<open>--retries\<close>.
\<close>

definition example_clock :: "event list \<Rightarrow> int \<Rightarrow> datetime" where
  "example_clock h tz =
     \<lparr>year = 2024, month = 1, day = 2, hour = 3, minute = 4, second = 5, microsecond = 0,
      utcoffset = 0\<rparr>"


definition exact_pow :: "rat \<Rightarrow> nat \<Rightarrow> rat option" where
  "exact_pow x n = Some (x ^ n)"

definition server_always :: "outcome \<Rightarrow> env" where
  "server_always x =
     \<lparr>respond = (\<lambda>h q. x), wall_clock = example_clock, environ = Map.empty, libm_pow = exact_pow\<rparr>"

definition one_forbidden :: env where
  "one_forbidden =
     \<lparr>respond = (\<lambda>h q. if req_url q = ''http://h/3026/windows/latest_commits.txt''
                        then Response 403 [] [] else Response 200 ''abc123\<newline>'' []),
      wall_clock = example_clock, environ = Map.empty, libm_pow = exact_pow\<rparr>"

definition fresh_world :: world where
  "fresh_world = \<lparr>trace = [], files = Map.empty\<rparr>"

definition blocked_world :: world where
  "blocked_world = \<lparr>trace = [], files = [PosixPath [] [''out''] \<mapsto> File (Text [])]\<rparr>"

definition example_args :: args where
  "example_args =
     \<lparr>base_url = ''http://h/'', builds = [''3025''], platforms = [''windows''],
      out = ''data/builds'', user = None, password = None, retries = DEFAULT_RETRIES\<rparr>"
section \<open>The retry loop\<close>

text \<open>One step of the loop for each kind of outcome.\<close>

lemma trace_emit [simp]: "trace (emit e w) = trace w @ [e]"
  by (simp add: emit_def)

lemma files_emit [simp]: "files (emit e w) = files w"
  by (simp add: emit_def)

lemma fetch_loop_exhausted:
  "\<not> int a < r \<Longrightarrow> fetch_loop ev req r a w = Inr ((None, None, None), w)"
  by (simp add: fetch_loop.simps)

lemma fetch_loop_transient_step:
  assumes "int a < r" and "transient (respond ev (trace w) req)"
  shows "fetch_loop ev req r a w =
           (case float_pow ev BACKOFF_FACTOR (Suc a) of
              Inl x \<Rightarrow> Inl (x, emit (HttpGet req) w)
            | Inr sleep \<Rightarrow>
                (case time_sleep sleep (emit (HttpGet req) w) of
                   Inl e \<Rightarrow> Inl e
                 | Inr w2 \<Rightarrow> fetch_loop ev req r (Suc a) w2))"
  using assms
  by (subst fetch_loop.simps) (auto simp: session_get_def transient_def split: outcome.splits sum.splits)

lemma fetch_loop_ok:
  assumes "int a < r" and "respond ev (trace w) req = Response 200 txt hdrs"
  shows "fetch_loop ev req r a w = Inr ((Some txt, Some 200, Some hdrs), emit (HttpGet req) w)"
  using assms by (subst fetch_loop.simps) (simp add: session_get_def)

lemma fetch_loop_auth:
  assumes "int a < r" and "respond ev (trace w) req = Response s txt hdrs" and "s = 401 \<or> s = 403"
  shows "fetch_loop ev req r a w = Inr ((None, Some s, Some hdrs), emit (HttpGet req) w)"
  using assms by (subst fetch_loop.simps) (auto simp add: session_get_def)

lemma fetch_loop_raised:
  assumes "int a < r" and "respond ev (trace w) req = Raised x"
  shows "fetch_loop ev req r a w = Inl (x, emit (HttpGet req) w)"
  using assms by (subst fetch_loop.simps) (simp add: session_get_def)

lemma outcome_kinds:
  obtains (retry) "transient x"
  | (ok) body rh where "x = Response 200 body rh"
  | (auth) s body rh where "x = Response s body rh" and "s = 401 \<or> s = 403"
  | (raised) e where "x = Raised e"
  by (cases x) (auto simp: transient_def)

subsection \<open>The backoff durations\<close>

text \<open>
  Where \<^verbatim>\<open>pow\<close> is accurate, the durations are the powers of \<open>3 / 2\<close> up to rounding,
  they increase strictly, \<^verbatim>\<open>time.sleep\<close> returns for the first 56 of them and raises
  \<^verbatim>\<open>OverflowError\<close> from the 57th on.
\<close>

lemma pow_accurateD:
  assumes "pow_accurate ev n" and "1 \<le> k" and "k \<le> n"
  shows "\<exists>d. libm_pow ev BACKOFF_FACTOR k = Some d \<and> backoff_duration ev k = d
           \<and> \<bar>d - BACKOFF_FACTOR ^ k\<bar> * 2 ^ 52 \<le> BACKOFF_FACTOR ^ k
           \<and> (k \<le> 33 \<longrightarrow> d = BACKOFF_FACTOR ^ k)"
proof -
  from assms(2,3) have "k \<in> set [1..<Suc n]" by auto
  with assms(1) have
    "case libm_pow ev BACKOFF_FACTOR k of
       None \<Rightarrow> False
     | Some d \<Rightarrow> \<bar>d - BACKOFF_FACTOR ^ k\<bar> * 2 ^ 52 \<le> BACKOFF_FACTOR ^ k
                 \<and> (k \<le> 33 \<longrightarrow> d = BACKOFF_FACTOR ^ k)"
    unfolding pow_accurate_def list_all_iff by (rule bspec)
  then show ?thesis
    by (cases "libm_pow ev BACKOFF_FACTOR k") (simp_all add: backoff_duration_def)
qed


lemma pow_accurate_exact: "libm_pow ev = exact_pow \<Longrightarrow> pow_accurate ev n"
  by (simp add: pow_accurate_def list_all_iff exact_pow_def BACKOFF_FACTOR_def)

lemma float_pow_accurate:
  assumes "pow_accurate ev n" and "1 \<le> k" and "k \<le> n"
  shows "float_pow ev BACKOFF_FACTOR k = Inr (backoff_duration ev k)"
  using pow_accurateD[OF assms] by (auto simp: float_pow_def)

lemma backoff_duration_exact:
  assumes "pow_accurate ev n" and "1 \<le> k" and "k \<le> n" and "k \<le> 33"
  shows "backoff_duration ev k = BACKOFF_FACTOR ^ k"
  using pow_accurateD[OF assms(1-3)] assms(4) by auto

lemma backoff_duration_bounds:
  assumes "pow_accurate ev n" and "1 \<le> k" and "k \<le> n"
  shows "BACKOFF_FACTOR ^ k * (2 ^ 52 - 1) \<le> backoff_duration ev k * 2 ^ 52"
    and "backoff_duration ev k * 2 ^ 52 \<le> BACKOFF_FACTOR ^ k * (2 ^ 52 + 1)"
proof -
  from pow_accurateD[OF assms] have
    "\<bar>backoff_duration ev k - BACKOFF_FACTOR ^ k\<bar> * 2 ^ 52 \<le> BACKOFF_FACTOR ^ k"
    by auto
  moreover have "(backoff_duration ev k - BACKOFF_FACTOR ^ k) * 2 ^ 52
                   \<le> \<bar>backoff_duration ev k - BACKOFF_FACTOR ^ k\<bar> * 2 ^ 52"
    by (intro mult_right_mono) simp_all
  moreover have "(BACKOFF_FACTOR ^ k - backoff_duration ev k) * 2 ^ 52
                   \<le> \<bar>backoff_duration ev k - BACKOFF_FACTOR ^ k\<bar> * 2 ^ 52"
    by (intro mult_right_mono) simp_all
  ultimately show "BACKOFF_FACTOR ^ k * (2 ^ 52 - 1) \<le> backoff_duration ev k * 2 ^ 52"
    and "backoff_duration ev k * 2 ^ 52 \<le> BACKOFF_FACTOR ^ k * (2 ^ 52 + 1)"
    by (simp_all add: algebra_simps)
qed

lemma backoff_power_pos: "0 < BACKOFF_FACTOR ^ k"
  by (simp add: BACKOFF_FACTOR_def)

lemma backoff_power_mono: "i \<le> j \<Longrightarrow> BACKOFF_FACTOR ^ i \<le> BACKOFF_FACTOR ^ j"
  by (simp add: BACKOFF_FACTOR_def power_increasing)



lemma sleep_limit_56: "BACKOFF_FACTOR ^ 56 * (2 ^ 52 + 1) * 10 ^ 9 < 2 ^ 63 * 2 ^ 52"
  by (simp add: BACKOFF_FACTOR_def power_divide)


lemma time_sleep_returns:
  assumes acc: "pow_accurate ev n" and k: "1 \<le> k" "k \<le> n" and le: "k \<le> 56"
  shows "time_sleep (backoff_duration ev k) w = Inr (emit (Sleep (backoff_duration ev k)) w)"
proof -
  let ?d = "backoff_duration ev k"
  note b = backoff_duration_bounds[OF acc k]
  have "0 \<le> BACKOFF_FACTOR ^ k * (2 ^ 52 - 1)"
    using backoff_power_pos[of k] by simp
  with b(1) have "0 \<le> ?d * 2 ^ 52" by linarith
  then have nonneg: "0 \<le> ?d" by simp
  have "BACKOFF_FACTOR ^ k * (2 ^ 52 + 1) \<le> BACKOFF_FACTOR ^ 56 * (2 ^ 52 + 1)"
    using backoff_power_mono[OF le] by (intro mult_right_mono) simp_all
  with b(2) have "?d * 2 ^ 52 \<le> BACKOFF_FACTOR ^ 56 * (2 ^ 52 + 1)"
    by linarith
  then have "?d * 2 ^ 52 * 10 ^ 9 \<le> BACKOFF_FACTOR ^ 56 * (2 ^ 52 + 1) * 10 ^ 9"
    by simp
  with sleep_limit_56 have "?d * 10 ^ 9 * 2 ^ 52 < 2 ^ 63 * 2 ^ 52"
    by (simp add: mult.commute mult.left_commute)
  then have small: "?d * 10 ^ 9 < 2 ^ 63" by simp
  from nonneg have "0 \<le> ?d * 10 ^ 9" by simp
  moreover have "- (2 ^ 63) < (0::rat)" by simp
  ultimately have "\<not> ?d * 10 ^ 9 < - (2 ^ 63)" by linarith
  with nonneg small show ?thesis by (simp add: time_sleep_def)
qed


subsection \<open>Runs of transient failures\<close>

lemma retry_events_Nil: "n \<le> a \<Longrightarrow> retry_events ev req a n = []"
  by (simp add: retry_events_def del: upt_Suc)

lemma retry_events_Cons:
  "a < n \<Longrightarrow> retry_events ev req a n =
     HttpGet req # Sleep (backoff_duration ev (Suc a)) # retry_events ev req (Suc a) n"
  by (simp add: retry_events_def upt_conv_Cons del: upt_Suc)

lemma retry_events_snoc:
  "a \<le> n \<Longrightarrow> retry_events ev req a (Suc n) =
     retry_events ev req a n @ [HttpGet req, Sleep (backoff_duration ev (Suc n))]"
  by (simp add: retry_events_def)

lemma http_gets_append [simp]: "http_gets (xs @ ys) = http_gets xs @ http_gets ys"
  by (induction xs rule: http_gets.induct) simp_all

lemma sleeps_append [simp]: "sleeps (xs @ ys) = sleeps xs @ sleeps ys"
  by (induction xs rule: sleeps.induct) simp_all




lemma added_events_emit [simp]: "added_events w (emit e w) = [e]"
  by (simp add: added_events_def)

text \<open>
  As long as the attempts fail transiently (and no more than 56 have), the loop goes on:
  from attempt \<open>a\<close> it reaches attempt \<open>m\<close> with the events of the attempts between.
\<close>

lemma fetch_loop_transient_run:
  assumes acc: "pow_accurate ev m" and m: "m \<le> 56" "m \<le> nat r"
  shows "a \<le> m \<Longrightarrow>
         \<forall>k. a \<le> k \<and> k < m \<longrightarrow> transient (respond ev (trace w @ retry_events ev req a k) req) \<Longrightarrow>
         fetch_loop ev req r a w =
           fetch_loop ev req r m (w\<lparr>trace := trace w @ retry_events ev req a m\<rparr>)"
proof (induction "m - a" arbitrary: a w)
  case 0
  then have "a = m" by simp
  then show ?case by (simp add: retry_events_Nil)
next
  case (Suc n)
  then have lt: "a < m" and n: "n = m - Suc a" and le: "Suc a \<le> m" by linarith+
  from lt m have r: "int a < r" by linarith
  from le m have le56: "Suc a \<le> 56" by linarith
  have tr: "transient (respond ev (trace w) req)"
    using Suc.prems(2)[rule_format, of a] lt by (simp add: retry_events_Nil)
  let ?d = "backoff_duration ev (Suc a)"
  let ?w2 = "emit (Sleep ?d) (emit (HttpGet req) w)"
  have step: "fetch_loop ev req r a w = fetch_loop ev req r (Suc a) ?w2"
    by (simp add: fetch_loop_transient_step[OF r tr] float_pow_accurate[OF acc _ le]
          time_sleep_returns[OF acc _ le le56])
  have tr2: "\<forall>k. Suc a \<le> k \<and> k < m \<longrightarrow>
               transient (respond ev (trace ?w2 @ retry_events ev req (Suc a) k) req)"
  proof (intro allI impI)
    fix k
    assume k: "Suc a \<le> k \<and> k < m"
    then have "a \<le> k \<and> k < m" and "a < k" by simp_all
    with Suc.prems(2) have "transient (respond ev (trace w @ retry_events ev req a k) req)"
      by blast
    then show "transient (respond ev (trace ?w2 @ retry_events ev req (Suc a) k) req)"
      using \<open>a < k\<close> by (simp add: retry_events_Cons)
  qed
  have "fetch_loop ev req r (Suc a) ?w2 =
          fetch_loop ev req r m (?w2\<lparr>trace := trace ?w2 @ retry_events ev req (Suc a) m\<rparr>)"
    using n le tr2 by (rule Suc.hyps(1))
  also have "?w2\<lparr>trace := trace ?w2 @ retry_events ev req (Suc a) m\<rparr>
               = w\<lparr>trace := trace w @ retry_events ev req a m\<rparr>"
    using lt by (simp add: retry_events_Cons emit_def)
  finally show ?case using step by simp
qed

lemma fetch_loop_all_transient:
  assumes "pow_accurate ev (nat r)" and "nat r \<le> 56" and "a \<le> nat r"
    and "\<forall>k. a \<le> k \<and> k < nat r \<longrightarrow> transient (respond ev (trace w @ retry_events ev req a k) req)"
  shows "fetch_loop ev req r a w =
           Inr ((None, None, None), w\<lparr>trace := trace w @ retry_events ev req a (nat r)\<rparr>)"
proof -
  have "fetch_loop ev req r a w =
          fetch_loop ev req r (nat r) (w\<lparr>trace := trace w @ retry_events ev req a (nat r)\<rparr>)"
    using assms(1,2) _ assms(3,4) by (rule fetch_loop_transient_run) simp
  then show ?thesis by (simp add: fetch_loop_exhausted)
qed


lemma fetch_url_loop: "fetch_url ev url auth hdrs r t w = fetch_loop ev (request_of url auth hdrs t) r 0 w"
  by (simp add: fetch_url_def request_of_def)

lemma fetch_url_all_transient:
  assumes "pow_accurate ev (nat r)" and "r \<le> 56"
    and "\<forall>k < nat r. transient (respond ev (trace w @ retry_events ev (request_of url auth hdrs t) 0 k)
                                  (request_of url auth hdrs t))"
  shows "fetch_url ev url auth hdrs r t w =
           Inr ((None, None, None),
                w\<lparr>trace := trace w @ retry_events ev (request_of url auth hdrs t) 0 (nat r)\<rparr>)"
  unfolding fetch_url_loop using assms by (intro fetch_loop_all_transient) simp_all


lemma transient_500: "transient (Response 500 txt hdrs)"
  by (simp add: transient_def)

lemma server_always_accurate: "pow_accurate (server_always x) n"
  by (rule pow_accurate_exact) (simp add: server_always_def)

lemma server_always_duration: "backoff_duration (server_always x) k = (3 / 2) ^ k"
  by (simp add: backoff_duration_def server_always_def exact_pow_def BACKOFF_FACTOR_def)




subsection \<open>What the loop returns\<close>

lemma fetch_url_auth:
  assumes "1 \<le> r"
    and "respond ev (trace w) (request_of url auth hdrs t) = Response s txt rh"
    and "s = 401 \<or> s = 403"
  shows "fetch_url ev url auth hdrs r t w =
           Inr ((None, Some s, Some rh), emit (HttpGet (request_of url auth hdrs t)) w)"
  using assms by (simp add: fetch_url_loop fetch_loop_auth)

lemma fetch_url_no_attempt:
  "r \<le> 0 \<Longrightarrow> fetch_url ev url auth hdrs r t w = Inr ((None, None, None), w)"
  by (simp add: fetch_url_loop fetch_loop_exhausted)

lemma fetch_url_ok:
  assumes "1 \<le> r" and "respond ev (trace w) (request_of url auth hdrs t) = Response 200 txt rh"
  shows "fetch_url ev url auth hdrs r t w =
           Inr ((Some txt, Some 200, Some rh), emit (HttpGet (request_of url auth hdrs t)) w)"
  using assms by (simp add: fetch_url_loop fetch_loop_ok)

lemma fetch_url_raised:
  assumes "1 \<le> r" and "respond ev (trace w) (request_of url auth hdrs t) = Raised x"
  shows "fetch_url ev url auth hdrs r t w = Inl (x, emit (HttpGet (request_of url auth hdrs t)) w)"
  using assms by (simp add: fetch_url_loop fetch_loop_raised)

text \<open>
  However the loop ends, it has only appended events to the trace, the requests among
  them are all the one it was called for, and the filesystem is as it was.
\<close>

lemma time_sleep_cases:
  obtains (raises) x where "time_sleep d w = Inl (x, w)"
  | (returns) "time_sleep d w = Inr (emit (Sleep d) w)"
  by (cases "d * 10 ^ 9 < - (2 ^ 63) \<or> 2 ^ 63 \<le> d * 10 ^ 9"; cases "d < 0")
     (simp_all add: time_sleep_def)

lemma fetch_loop_events:
  "\<exists>es. world_of (fetch_loop ev req r a w) = w\<lparr>trace := trace w @ es\<rparr>
        \<and> set (http_gets es) \<subseteq> {req}"
proof (induction "nat r - a" arbitrary: a w)
  case 0
  then have "\<not> int a < r" by linarith
  then have "world_of (fetch_loop ev req r a w) = w\<lparr>trace := trace w @ []\<rparr>"
    by (simp add: fetch_loop_exhausted world_of_def)
  moreover have "set (http_gets []) \<subseteq> {req}" by simp
  ultimately show ?case by blast
next
  case (Suc n)
  then have lt: "int a < r" and n: "n = nat r - Suc a" by linarith+
  let ?w1 = "emit (HttpGet req) w"
  have emit1: "?w1 = w\<lparr>trace := trace w @ [HttpGet req]\<rparr>"
    by (simp add: emit_def)
  have one: "set (http_gets [HttpGet req]) \<subseteq> {req}" by simp
  show ?case
  proof (cases "respond ev (trace w) req" rule: outcome_kinds)
    case retry
    note step = fetch_loop_transient_step[OF lt retry]
    show ?thesis
    proof (cases "float_pow ev BACKOFF_FACTOR (Suc a)")
      case (Inl x)
      then have "world_of (fetch_loop ev req r a w) = w\<lparr>trace := trace w @ [HttpGet req]\<rparr>"
        by (simp add: step world_of_def emit1)
      with one show ?thesis by blast
    next
      case (Inr d)
      show ?thesis
      proof (cases d ?w1 rule: time_sleep_cases)
        case (raises x)
        then have "world_of (fetch_loop ev req r a w) = w\<lparr>trace := trace w @ [HttpGet req]\<rparr>"
          by (simp add: step Inr world_of_def emit1)
        with one show ?thesis by blast
      next
        case returns
        let ?w2 = "emit (Sleep d) ?w1"
        from Suc.hyps(1)[OF n, of ?w2] obtain es where
          es: "world_of (fetch_loop ev req r (Suc a) ?w2) = ?w2\<lparr>trace := trace ?w2 @ es\<rparr>"
            "set (http_gets es) \<subseteq> {req}"
          by blast
        have "fetch_loop ev req r a w = fetch_loop ev req r (Suc a) ?w2"
          by (simp add: step Inr returns)
        moreover have "?w2\<lparr>trace := trace ?w2 @ es\<rparr>
                = w\<lparr>trace := trace w @ ([HttpGet req, Sleep d] @ es)\<rparr>"
          by (simp add: emit_def)
        ultimately have "world_of (fetch_loop ev req r a w)
                = w\<lparr>trace := trace w @ ([HttpGet req, Sleep d] @ es)\<rparr>"
          using es(1) by (simp only:)
        moreover have "set (http_gets ([HttpGet req, Sleep d] @ es)) \<subseteq> {req}"
          using es(2) by simp
        ultimately show ?thesis by blast
      qed
    qed
  next
    case (ok body rh)
    then have "world_of (fetch_loop ev req r a w) = w\<lparr>trace := trace w @ [HttpGet req]\<rparr>"
      using lt by (simp add: fetch_loop_ok emit1 world_of_def)
    with one show ?thesis by blast
  next
    case (auth s body rh)
    then have "world_of (fetch_loop ev req r a w) = w\<lparr>trace := trace w @ [HttpGet req]\<rparr>"
      using lt by (simp add: fetch_loop_auth emit1 world_of_def)
    with one show ?thesis by blast
  next
    case (raised e)
    then have "world_of (fetch_loop ev req r a w) = w\<lparr>trace := trace w @ [HttpGet req]\<rparr>"
      using lt by (simp add: fetch_loop_raised emit1 world_of_def)
    with one show ?thesis by blast
  qed
qed

lemma files_fetch_loop: "files (world_of (fetch_loop ev req r a w)) = files w"
proof -
  from fetch_loop_events[of ev req r a w] obtain es where
    "world_of (fetch_loop ev req r a w) = w\<lparr>trace := trace w @ es\<rparr>" by blast
  then show ?thesis by simp
qed

text \<open>
  The three ways in which the loop returns: a body with status 200; no body with the
  status 401 or 403; or nothing at all, after \<open>retries\<close> attempts.
\<close>

lemma fetch_loop_returns:
  "fetch_loop ev req r a w = Inr ((c, st, h), w') \<Longrightarrow>
     (c \<noteq> None \<and> st = Some 200 \<and> h \<noteq> None)
     \<or> (c = None \<and> (st = Some 401 \<or> st = Some 403) \<and> h \<noteq> None)
     \<or> (c = None \<and> st = None \<and> h = None
          \<and> length (http_gets (added_events w w')) = nat r - a)"
proof (induction "nat r - a" arbitrary: a w)
  case 0
  then have "\<not> int a < r" by linarith
  with 0 show ?case by (simp add: fetch_loop_exhausted added_events_def)
next
  case (Suc n)
  then have lt: "int a < r" and n: "n = nat r - Suc a" and ra: "nat r - a = Suc (nat r - Suc a)"
    by linarith+
  let ?w1 = "emit (HttpGet req) w"
  show ?case
  proof (cases "respond ev (trace w) req" rule: outcome_kinds)
    case retry
    note step = fetch_loop_transient_step[OF lt retry]
    show ?thesis
    proof (cases "float_pow ev BACKOFF_FACTOR (Suc a)")
      case (Inl x)
      with Suc.prems show ?thesis by (simp add: step)
    next
      case (Inr d)
      show ?thesis
      proof (cases d ?w1 rule: time_sleep_cases)
        case (raises x)
        with Suc.prems Inr show ?thesis by (simp add: step)
      next
        case returns
        let ?w2 = "emit (Sleep d) ?w1"
        from Suc.prems have next_run: "fetch_loop ev req r (Suc a) ?w2 = Inr ((c, st, h), w')"
          by (simp add: step Inr returns)
        from fetch_loop_events[of ev req r "Suc a" ?w2] obtain es where
          "w' = ?w2\<lparr>trace := trace ?w2 @ es\<rparr>"
          by (auto simp: next_run world_of_def)
        then have "http_gets (added_events w w') = req # http_gets (added_events ?w2 w')"
          by (simp add: added_events_def)
        with Suc.hyps(1)[OF n next_run] ra show ?thesis by auto
      qed
    qed
  next
    case (ok body rh)
    with Suc.prems lt show ?thesis by (auto simp: fetch_loop_ok)
  next
    case (auth s body rh)
    with Suc.prems lt show ?thesis by (auto simp: fetch_loop_auth)
  next
    case (raised e)
    with Suc.prems lt show ?thesis by (simp add: fetch_loop_raised)
  qed
qed

text \<open>
  Claim C2. For every \<open>r \<ge> 1\<close>, if the first network attempt answers 401 or 403,
  \<^verbatim>\<open>fetch_url\<close> makes exactly one network attempt and no sleep, and returns a failure
  that carries the status code and the headers. The two kinds of failure differ in the
  status: whenever \<^verbatim>\<open>fetch_url\<close> returns without a body, the status is 401, 403 or
  \<^verbatim>\<open>None\<close>; it is \<^verbatim>\<open>None\<close> only when the loop has ended after \<^verbatim>\<open>retries\<close> attempts,
  with neither a body nor headers; and a run of \<open>r \<le> 56\<close> attempts that all fail
  transiently returns \<^verbatim>\<open>(None, None, None)\<close>.
\<close>

theorem auth_short_circuit:
  assumes "1 \<le> r"
    and "respond ev (trace w) (request_of url auth hdrs t) = Response s txt rh"
    and "s = 401 \<or> s = 403"
  shows "(\<exists>w'. fetch_url ev url auth hdrs r t w = Inr ((None, Some s, Some rh), w')
            \<and> http_gets (added_events w w') = [request_of url auth hdrs t]
            \<and> sleeps (added_events w w') = [])
       \<and> (\<forall>ev' r' w0 c st h w1.
            fetch_url ev' url auth hdrs r' t w0 = Inr ((c, st, h), w1) \<longrightarrow>
              (c = None \<longrightarrow> st = None \<or> st = Some 401 \<or> st = Some 403)
              \<and> (st = None \<longrightarrow>
                   c = None \<and> h = None \<and> length (http_gets (added_events w0 w1)) = nat r'))
       \<and> (r \<le> 56 \<and> pow_accurate ev' (nat r)
            \<and> (\<forall>k < nat r. transient (respond ev' (trace w @ retry_events ev' (request_of url auth hdrs t) 0 k)
                                       (request_of url auth hdrs t))) \<longrightarrow>
            (\<exists>w'. fetch_url ev' url auth hdrs r t w = Inr ((None, None, None), w')))"
proof (intro conjI allI impI)
  show "\<exists>w'. fetch_url ev url auth hdrs r t w = Inr ((None, Some s, Some rh), w')
            \<and> http_gets (added_events w w') = [request_of url auth hdrs t]
            \<and> sleeps (added_events w w') = []"
    by (intro exI[of _ "emit (HttpGet (request_of url auth hdrs t)) w"])
       (simp add: fetch_url_auth[OF assms])
next
  fix ev' r' w0 c st h w1
  assume run: "fetch_url ev' url auth hdrs r' t w0 = Inr ((c, st, h), w1)"
  note kinds = fetch_loop_returns[OF run[unfolded fetch_url_loop]]
  show "st = None \<or> st = Some 401 \<or> st = Some 403" if "c = None"
    using kinds that by auto
  show "c = None" and "h = None" and "length (http_gets (added_events w0 w1)) = nat r'" if "st = None"
    using kinds that by auto
next
  assume "r \<le> 56 \<and> pow_accurate ev' (nat r)
            \<and> (\<forall>k < nat r. transient (respond ev' (trace w @ retry_events ev' (request_of url auth hdrs t) 0 k)
                                       (request_of url auth hdrs t)))"
  then have "pow_accurate ev' (nat r)" and "r \<le> 56"
    and "\<forall>k < nat r. transient (respond ev' (trace w @ retry_events ev' (request_of url auth hdrs t) 0 k)
                                       (request_of url auth hdrs t))"
    by simp_all
  from fetch_url_all_transient[OF this]
  show "\<exists>w'. fetch_url ev' url auth hdrs r t w = Inr ((None, None, None), w')"
    by (intro exI)
qed

theorem auth_short_circuit_witness:
  "(1::int) \<le> 3
   \<and> respond (server_always (Response 401 [] [])) (trace fresh_world) (request_of ''u'' None [] TIMEOUT)
       = Response 401 [] []
   \<and> (\<exists>w'. fetch_url (server_always (Response 401 [] [])) ''u'' None [] 3 TIMEOUT fresh_world
              = Inr ((None, Some 401, Some []), w')
         \<and> http_gets (added_events fresh_world w') = [request_of ''u'' None [] TIMEOUT]
         \<and> sleeps (added_events fresh_world w') = [])
   \<and> (\<exists>w'. fetch_url (server_always (Response 500 [] [])) ''u'' None [] 3 TIMEOUT fresh_world
              = Inr ((None, None, None), w'))"
proof -
  let ?ev' = "server_always (Response 500 [] [])"
  have one: "(1::int) \<le> 3" by simp
  have a: "respond (server_always (Response 401 [] [])) (trace fresh_world)
             (request_of ''u'' None [] TIMEOUT) = Response 401 [] []"
    by (simp add: server_always_def)
  have s: "(401::int) = 401 \<or> (401::int) = 403" by simp
  have h: "(3::int) \<le> 56 \<and> pow_accurate ?ev' (nat 3)
            \<and> (\<forall>k < nat 3. transient (respond ?ev' (trace fresh_world
                  @ retry_events ?ev' (request_of ''u'' None [] TIMEOUT) 0 k)
                  (request_of ''u'' None [] TIMEOUT)))"
    by (simp add: server_always_accurate) (simp add: server_always_def transient_500)
  note c2 = auth_short_circuit[OF one a s]
  from c2[THEN conjunct1] c2[THEN conjunct2, THEN conjunct2, rule_format, OF h] a
  show ?thesis by simp
qed

lemma fetch_url_exhausted_ends_with_sleep:
  assumes "1 \<le> r" and "r \<le> 56" and "pow_accurate ev (nat r)"
    and "\<forall>k < nat r. transient (respond ev (trace w @ retry_events ev (request_of url auth hdrs t) 0 k)
                                  (request_of url auth hdrs t))"
  shows "\<exists>w'. fetch_url ev url auth hdrs r t w = Inr ((None, None, None), w')
           \<and> last (trace w') = Sleep (backoff_duration ev (nat r))"
proof -
  from assms(1) obtain n where n: "nat r = Suc n"
    by (cases "nat r") auto
  have "retry_events ev (request_of url auth hdrs t) 0 (nat r) \<noteq> []"
    and "last (retry_events ev (request_of url auth hdrs t) 0 (nat r)) = Sleep (backoff_duration ev (nat r))"
    by (simp_all add: n retry_events_snoc)
  then show ?thesis
    by (simp add: fetch_url_all_transient[OF assms(3,2,4)])
qed

text \<open>
  Claim C3 says that no sleep follows the final network attempt. The loop sleeps after
  every transient failure, the last one included: with \<^verbatim>\<open>retries = 1\<close> and a server that
  answers 500, the single attempt is followed by a sleep of \<open>3 / 2\<close> seconds, and only then
  does \<^verbatim>\<open>fetch_url\<close> return \<^verbatim>\<open>(None, None, None)\<close>.
\<close>

theorem sleep_after_final_attempt:
  "fetch_url (server_always (Response 500 [] [])) ''u'' None [] 1 TIMEOUT fresh_world
     = Inr ((None, None, None),
            fresh_world\<lparr>trace := [HttpGet (request_of ''u'' None [] TIMEOUT), Sleep (3 / 2)]\<rparr>)"
proof -
  let ?ev = "server_always (Response 500 [] [])"
  have h: "\<forall>k < nat 1. transient (respond ?ev (trace fresh_world
              @ retry_events ?ev (request_of ''u'' None [] TIMEOUT) 0 k) (request_of ''u'' None [] TIMEOUT))"
    by (simp add: server_always_def transient_500)
  have "retry_events ?ev (request_of ''u'' None [] TIMEOUT) 0 (nat 1)
          = [HttpGet (request_of ''u'' None [] TIMEOUT), Sleep (3 / 2)]"
    by (simp add: retry_events_def server_always_duration)
  then show ?thesis
    using fetch_url_all_transient[OF server_always_accurate _ h] by (simp add: fresh_world_def)
qed

section \<open>The URL builder\<close>

text \<open>\<^verbatim>\<open>rstrip\<close> removes a run of the character at the end, and all of it.\<close>

lemma takeWhile_eq_replicate: "takeWhile (\<lambda>x. x = c) xs = replicate (length (takeWhile (\<lambda>x. x = c) xs)) c"
  by (induction xs) simp_all

lemma rstrip_decomp: "s = rstrip c s @ replicate (length (takeWhile (\<lambda>x. x = c) (rev s))) c"
proof -
  have "rev s = takeWhile (\<lambda>x. x = c) (rev s) @ dropWhile (\<lambda>x. x = c) (rev s)"
    by simp
  then have "s = rev (dropWhile (\<lambda>x. x = c) (rev s)) @ rev (takeWhile (\<lambda>x. x = c) (rev s))"
    by (metis rev_append rev_rev_ident)
  also have "rev (takeWhile (\<lambda>x. x = c) (rev s))
               = replicate (length (takeWhile (\<lambda>x. x = c) (rev s))) c"
    by (subst takeWhile_eq_replicate) simp
  finally show ?thesis
    by (simp add: rstrip_def)
qed

lemma rstrip_no_suffix: "\<not> suffix [c] (rstrip c s)"
proof
  assume "suffix [c] (rstrip c s)"
  then obtain xs where "rstrip c s = xs @ [c]"
    by (auto simp: suffix_def)
  then have "dropWhile (\<lambda>x. x = c) (rev s) = c # rev xs"
    by (metis rev_rev_ident rev_append rev.simps append_Cons append_Nil rstrip_def)
  then show False
    using hd_dropWhile[of "\<lambda>x. x = c" "rev s"] by simp
qed

text \<open>
  Claim C7. For every base URL, build id and platform id, \<^verbatim>\<open>build_target_url\<close> returns the
  base without its trailing slashes, followed by \<^verbatim>\<open>/build/platform/latest_commits.txt\<close>:
  the base is \<open>s\<close> followed by \<open>k \<ge> 0\<close> slashes, \<open>s\<close> does not end with a slash, and the
  result is \<open>s\<close>, one slash, the build, one slash, the platform and
  \<^verbatim>\<open>/latest_commits.txt\<close>. The function is total: it has no failure mode.
\<close>

theorem url_builder:
  "\<exists>s k. base = s @ replicate k (CHR ''/'') \<and> \<not> suffix ''/'' s
       \<and> build_target_url base b p = s @ ''/'' @ b @ ''/'' @ p @ ''/latest_commits.txt''"
proof (intro exI conjI)
  show "base = rstrip (CHR ''/'') base
                 @ replicate (length (takeWhile (\<lambda>x. x = CHR ''/'') (rev base))) (CHR ''/'')"
    by (rule rstrip_decomp)
  show "\<not> suffix ''/'' (rstrip (CHR ''/'') base)"
    by (rule rstrip_no_suffix)
  show "build_target_url base b p
          = rstrip (CHR ''/'') base @ ''/'' @ b @ ''/'' @ p @ ''/latest_commits.txt''"
    by (simp add: build_target_url_def)
qed

lemma rstrip_idem: "rstrip c (rstrip c s) = rstrip c s"
  by (simp add: rstrip_def dropWhile_idem)

section \<open>The filesystem\<close>




lemma resolve_update:
  "length seen + length ns < length (names p) \<Longrightarrow>
     resolve (fs(p \<mapsto> v)) r seen ns = resolve fs r seen ns"
proof (induction ns arbitrary: seen)
  case Nil
  then show ?case by simp
next
  case (Cons n ns)
  then have neq: "PosixPath r (seen @ [n]) \<noteq> p" by auto
  from Cons.prems have "length (seen @ [n]) + length ns < length (names p)" by simp
  then have ih: "resolve (fs(p \<mapsto> v)) r (seen @ [n]) ns = resolve fs r (seen @ [n]) ns"
    by (rule Cons.IH)
  show ?case using ih neq by (simp add: fun_upd_def split: option.split node.split)
qed

lemma write_text_Inr:
  assumes "write_text p d fs = Inr fs'"
  shows "fs' = fs(p \<mapsto> File d)" and "names p \<noteq> []"
    and "resolve fs (anchor p) [] (butlast (names p)) = None"
  using assms by (auto simp: write_text_def split: if_splits option.splits node.splits)

lemma write_text_ok:
  assumes "names p \<noteq> []" and "resolve fs (anchor p) [] (butlast (names p)) = None"
    and "fs p \<noteq> Some Directory"
  shows "write_text p d fs = Inr (fs(p \<mapsto> File d))"
  using assms by (auto simp: write_text_def split: option.splits node.splits)

lemma write_text_missing_dir:
  assumes "names p \<noteq> []" and "resolve fs (anchor p) [] (butlast (names p)) = Some e"
  shows "write_text p d fs = Inl e"
  using assms by (simp add: write_text_def)

lemma read_bytes_written:
  assumes "names p \<noteq> []" and "resolve fs (anchor p) [] (butlast (names p)) = None"
    and "fs p = Some (File d)"
  shows "read_bytes p fs = Inr d"
  using assms by (simp add: read_bytes_def)



subsection \<open>Paths of a job\<close>

lemma Path_leaf [simp]:
  "Path ''latest_commits.txt'' = PosixPath [] [''latest_commits.txt'']"
  "Path ''meta.json'' = PosixPath [] [''meta.json'']"
  "Path ''fetch_errors.json'' = PosixPath [] [''fetch_errors.json'']"
  by (simp_all add: Path_def splitroot_def)

lemma local_path_of_eq:
  "local_path_of out_root b p =
     PosixPath (anchor (joinpath (joinpath out_root b) p))
       (names (joinpath (joinpath out_root b) p) @ [''latest_commits.txt''])"
  by (simp add: local_path_of_def joinpath_def)

lemma parent_local_path: "parent (local_path_of out_root b p) = joinpath (joinpath out_root b) p"
  by (simp add: local_path_of_eq parent_def)

lemma meta_path_of_eq:
  "meta_path_of out_root b p =
     PosixPath (anchor (joinpath (joinpath out_root b) p))
       (names (joinpath (joinpath out_root b) p) @ [''meta.json''])"
  by (simp add: meta_path_of_def parent_local_path) (simp add: joinpath_def)

lemma meta_neq_local: "meta_path_of out_root b p \<noteq> local_path_of out_root b p"
  by (simp add: meta_path_of_eq local_path_of_eq)








section \<open>One job\<close>

text \<open>
  \<^verbatim>\<open>fetch_url\<close> leaves the filesystem alone and only appends events, all of whose
  requests are the one it was called for. A job whose fetch raised ends with that
  exception; a job whose fetch failed appends one record and returns; a job whose fetch
  succeeded returns exactly when both writes return.
\<close>

lemma files_job_fetch:
  "files (world_of (job_fetch ev base out_root auth hdrs r b p st)) = files (world st)"
  by (simp add: job_fetch_def fetch_url_def files_fetch_loop print_out_def)

lemma process_job_fetch:
  "process_job ev base out_root auth hdrs r b p st =
     (case job_fetch ev base out_root auth hdrs r b p st of
        Inl e \<Rightarrow> Inl e
      | Inr ((None, status, rh), w2) \<Rightarrow>
          if status = Some 401 \<or> status = Some 403 then
            Inr (st\<lparr>errors := errors st @ [error_record b p (build_target_url base b p)
                        (''AUTH ERROR '' @ str_status status @ '' fetching '' @ build_target_url base b p)],
                    world := print_err (''AUTH ERROR '' @ str_status status @ '' fetching ''
                                          @ build_target_url base b p) w2\<rparr>)
          else
            Inr (st\<lparr>errors := errors st @ [error_record b p (build_target_url base b p)
                        (''FAILED to fetch '' @ build_target_url base b p @ '' after '' @ str_int r
                           @ '' attempts'')],
                    world := print_err (''FAILED to fetch '' @ build_target_url base b p @ '' after ''
                                          @ str_int r @ '' attempts'') w2\<rparr>)
      | Inr ((Some content, status, rh), w2) \<Rightarrow>
          (case write_file (local_path_of out_root b p) content w2 of
             Inl e \<Rightarrow> Inl e
           | Inr w3 \<Rightarrow>
               (case write_meta ev (local_path_of out_root b p) b p (build_target_url base b p) w3 of
                  Inl e \<Rightarrow> Inl e
                | Inr w4 \<Rightarrow>
                    Inr (st\<lparr>success_count := success_count st + 1,
                            world := print_out (''Saved '' @ str_path (local_path_of out_root b p)
                                       @ '' ('' @ str_nat (length content) @ '' bytes)'') w4\<rparr>))))"
  unfolding process_job_def job_fetch_def Let_def by (rule refl)

lemma process_job_raised:
  assumes "job_fetch ev base out_root auth hdrs r b p st = Inl x"
  shows "process_job ev base out_root auth hdrs r b p st = Inl x"
  by (simp add: process_job_fetch assms)

lemma process_job_failed:
  assumes "job_fetch ev base out_root auth hdrs r b p st = Inr ((None, status, rh), w2)"
  shows "process_job ev base out_root auth hdrs r b p st =
           Inr (st\<lparr>errors := errors st @ [error_record b p (build_target_url base b p)
                       (failure_message (build_target_url base b p) r status)],
                   world := print_err (failure_message (build_target_url base b p) r status) w2\<rparr>)"
  by (simp add: process_job_fetch assms failure_message_def)

lemma meta_record_files [simp]:
  "meta_record ev b p u (w\<lparr>files := f\<rparr>) = meta_record ev b p u w"
  by (simp add: meta_record_def datetime_now_def)

lemma write_file_Inr:
  assumes "write_file q c w = Inr w'"
  shows "\<exists>fs1. mkdir_parents (parent q) (files w) = Inr fs1
           \<and> w' = w\<lparr>files := fs1(q \<mapsto> File (Text c))\<rparr>
           \<and> names q \<noteq> []
           \<and> resolve fs1 (anchor q) [] (butlast (names q)) = None"
  using assms
  by (auto simp: write_file_def split: sum.splits dest: write_text_Inr)

lemma write_meta_Inr:
  assumes "write_meta ev q b p u w = Inr w'"
  shows "w' = w\<lparr>files := (files w)(joinpath (parent q) ''meta.json''
                              \<mapsto> File (Json (JObject (meta_record ev b p u w))))\<rparr>"
  using assms
  by (auto simp: write_meta_def Let_def split: sum.splits dest: write_text_Inr)

lemma process_job_success:
  assumes f: "job_fetch ev base out_root auth hdrs r b p st = Inr ((Some c, status, rh), w2)"
    and ok: "process_job ev base out_root auth hdrs r b p st = Inr st1"
  shows "\<exists>fs1. mkdir_parents (parent (local_path_of out_root b p)) (files (world st)) = Inr fs1
           \<and> resolve fs1 (anchor (local_path_of out_root b p)) []
                (names (parent (local_path_of out_root b p))) = None
           \<and> st1 = st\<lparr>success_count := success_count st + 1,
                       world := print_out (''Saved '' @ str_path (local_path_of out_root b p)
                                  @ '' ('' @ str_nat (length c) @ '' bytes)'')
                         (w2\<lparr>files := fs1(local_path_of out_root b p \<mapsto> File (Text c),
                                          meta_path_of out_root b p \<mapsto> File (Json (JObject
                                            (meta_record ev b p (build_target_url base b p) w2))))\<rparr>)\<rparr>"
proof -
  from ok f obtain w3 w4 where
    w3: "write_file (local_path_of out_root b p) c w2 = Inr w3" and
    w4: "write_meta ev (local_path_of out_root b p) b p (build_target_url base b p) w3 = Inr w4" and
    st1: "st1 = st\<lparr>success_count := success_count st + 1,
                     world := print_out (''Saved '' @ str_path (local_path_of out_root b p)
                                @ '' ('' @ str_nat (length c) @ '' bytes)'') w4\<rparr>"
    by (auto simp: process_job_fetch split: sum.splits)
  from write_file_Inr[OF w3] obtain fs1 where
    fs1: "mkdir_parents (parent (local_path_of out_root b p)) (files w2) = Inr fs1" and
    w3': "w3 = w2\<lparr>files := fs1(local_path_of out_root b p \<mapsto> File (Text c))\<rparr>" and
    res: "resolve fs1 (anchor (local_path_of out_root b p)) [] (butlast (names (local_path_of out_root b p))) = None"
    by blast
  have fw2: "files w2 = files (world st)"
    using files_job_fetch[of ev base out_root auth hdrs r b p st] by (simp add: f world_of_def)
  have "w4 = w2\<lparr>files := fs1(local_path_of out_root b p \<mapsto> File (Text c),
                              meta_path_of out_root b p \<mapsto> File (Json (JObject
                                (meta_record ev b p (build_target_url base b p) w2))))\<rparr>"
    using write_meta_Inr[OF w4] by (simp add: w3' meta_path_of_def)
  with fs1 res st1 fw2 show ?thesis
    by (simp add: parent_def)
qed

subsection \<open>The metadata\<close>

lemma str_nat_digit: "n < 10 \<Longrightarrow> str_nat n = [digit_char n]"
  by (simp add: str_nat.simps)

lemma format_offset_ist: "format_offset (timezone (timedelta 5 30)) = ''+05:30''"
  by (simp add: format_offset_def timezone_def timedelta_def zero_pad_def str_nat.simps[of 30]
        str_nat_digit digit_char_def)

lemma isoformat_ist:
  "isoformat (datetime_now ev (timezone (timedelta 5 30)) w) =
     zero_pad 4 (year (wall_clock ev (trace w) (timedelta 5 30))) @ ''-''
       @ zero_pad 2 (month (wall_clock ev (trace w) (timedelta 5 30))) @ ''-''
       @ zero_pad 2 (day (wall_clock ev (trace w) (timedelta 5 30))) @ ''T''
       @ format_time (hour (wall_clock ev (trace w) (timedelta 5 30)))
           (minute (wall_clock ev (trace w) (timedelta 5 30)))
           (second (wall_clock ev (trace w) (timedelta 5 30)))
           (microsecond (wall_clock ev (trace w) (timedelta 5 30)))
       @ ''+05:30''"
  using format_offset_ist by (simp add: isoformat_def datetime_now_def timezone_def)

lemma job_fetch_events:
  "\<exists>es. world_of (job_fetch ev base out_root auth hdrs r b p st)
          = (world st)\<lparr>trace := trace (world st)
               @ Stdout (''Fetching: '' @ build_target_url base b p @ '' -> ''
                           @ str_path (local_path_of out_root b p)) # es\<rparr>
        \<and> set (http_gets es) \<subseteq> {request_of (build_target_url base b p) auth hdrs TIMEOUT}"
proof -
  let ?w1 = "print_out (''Fetching: '' @ build_target_url base b p @ '' -> ''
                          @ str_path (local_path_of out_root b p)) (world st)"
  let ?q = "request_of (build_target_url base b p) auth hdrs TIMEOUT"
  from fetch_loop_events[of ev ?q r 0 ?w1] obtain es where
    es: "world_of (fetch_loop ev ?q r 0 ?w1) = ?w1\<lparr>trace := trace ?w1 @ es\<rparr>"
      "set (http_gets es) \<subseteq> {?q}"
    by blast
  have "world_of (job_fetch ev base out_root auth hdrs r b p st) = ?w1\<lparr>trace := trace ?w1 @ es\<rparr>"
    using es(1) by (simp only: job_fetch_def fetch_url_loop)
  also have "\<dots> = (world st)\<lparr>trace := trace (world st)
               @ Stdout (''Fetching: '' @ build_target_url base b p @ '' -> ''
                           @ str_path (local_path_of out_root b p)) # es\<rparr>"
    by (simp add: print_out_def emit_def)
  finally show ?thesis using es(2) by blast
qed

lemma successful_job_requests:
  assumes f: "job_fetch ev base out_root auth hdrs r b p st = Inr ((Some c, status, rh), w2)"
    and ok: "process_job ev base out_root auth hdrs r b p st = Inr st1"
  shows "set (http_gets (added_events (world st) (world st1)))
           \<subseteq> {request_of (build_target_url base b p) auth hdrs TIMEOUT}"
proof -
  from job_fetch_events[of ev base out_root auth hdrs r b p st] f obtain es where
    w2: "w2 = (world st)\<lparr>trace := trace (world st)
               @ Stdout (''Fetching: '' @ build_target_url base b p @ '' -> ''
                           @ str_path (local_path_of out_root b p)) # es\<rparr>" and
    es: "set (http_gets es) \<subseteq> {request_of (build_target_url base b p) auth hdrs TIMEOUT}"
    by (auto simp: world_of_def)
  from process_job_success[OF f ok] obtain fs1 where
    "st1 = st\<lparr>success_count := success_count st + 1,
               world := print_out (''Saved '' @ str_path (local_path_of out_root b p)
                          @ '' ('' @ str_nat (length c) @ '' bytes)'')
                 (w2\<lparr>files := fs1(local_path_of out_root b p \<mapsto> File (Text c),
                                  meta_path_of out_root b p \<mapsto> File (Json (JObject
                                    (meta_record ev b p (build_target_url base b p) w2))))\<rparr>)\<rparr>"
    by blast
  then have "added_events (world st) (world st1)
               = Stdout (''Fetching: '' @ build_target_url base b p @ '' -> ''
                           @ str_path (local_path_of out_root b p)) # es
                 @ [Stdout (''Saved '' @ str_path (local_path_of out_root b p)
                          @ '' ('' @ str_nat (length c) @ '' bytes)'')]"
    by (simp add: w2 added_events_def print_out_def emit_def)
  with es show ?thesis by simp
qed

text \<open>
  Claim C8. For every successful job, the \<^verbatim>\<open>meta.json\<close> written next to the downloaded file
  is the object with exactly the keys \<^verbatim>\<open>build\<close> (the job's build id), \<^verbatim>\<open>platform\<close>
  (the job's platform id), \<^verbatim>\<open>fetched_at\<close> and \<^verbatim>\<open>source_url\<close>. \<^verbatim>\<open>fetched_at\<close> is
  the ISO-8601 rendering of the clock read at the offset +05:30, which ends with
  \<^verbatim>\<open>+05:30\<close>; \<^verbatim>\<open>source_url\<close> is the URL of every request the job made.
\<close>

theorem meta_json_contents:
  assumes "job_fetch ev base out_root auth hdrs r b p st = Inr ((Some c, status, rh), w2)"
    and "process_job ev base out_root auth hdrs r b p st = Inr st1"
  shows "files (world st1) (meta_path_of out_root b p) =
           Some (File (Json (JObject
             [(''build'', JString b),
              (''platform'', JString p),
              (''fetched_at'', JString (isoformat (datetime_now ev (timezone (timedelta 5 30)) w2))),
              (''source_url'', JString (build_target_url base b p))])))
       \<and> parent (meta_path_of out_root b p) = parent (local_path_of out_root b p)
       \<and> isoformat (datetime_now ev (timezone (timedelta 5 30)) w2) =
           zero_pad 4 (year (wall_clock ev (trace w2) (timedelta 5 30))) @ ''-''
             @ zero_pad 2 (month (wall_clock ev (trace w2) (timedelta 5 30))) @ ''-''
             @ zero_pad 2 (day (wall_clock ev (trace w2) (timedelta 5 30))) @ ''T''
             @ format_time (hour (wall_clock ev (trace w2) (timedelta 5 30)))
                 (minute (wall_clock ev (trace w2) (timedelta 5 30)))
                 (second (wall_clock ev (trace w2) (timedelta 5 30)))
                 (microsecond (wall_clock ev (trace w2) (timedelta 5 30)))
             @ ''+05:30''
       \<and> (\<forall>q \<in> set (http_gets (added_events (world st) (world st1))).
             req_url q = build_target_url base b p)"
proof (intro conjI)
  from process_job_success[OF assms] obtain fs1 where
    "st1 = st\<lparr>success_count := success_count st + 1,
               world := print_out (''Saved '' @ str_path (local_path_of out_root b p)
                          @ '' ('' @ str_nat (length c) @ '' bytes)'')
                 (w2\<lparr>files := fs1(local_path_of out_root b p \<mapsto> File (Text c),
                                  meta_path_of out_root b p \<mapsto> File (Json (JObject
                                    (meta_record ev b p (build_target_url base b p) w2))))\<rparr>)\<rparr>"
    by blast
  then show "files (world st1) (meta_path_of out_root b p) =
           Some (File (Json (JObject
             [(''build'', JString b),
              (''platform'', JString p),
              (''fetched_at'', JString (isoformat (datetime_now ev (timezone (timedelta 5 30)) w2))),
              (''source_url'', JString (build_target_url base b p))])))"
    by (simp add: print_out_def meta_record_def)
  show "parent (meta_path_of out_root b p) = parent (local_path_of out_root b p)"
    by (simp add: meta_path_of_eq local_path_of_eq parent_def)
  show "isoformat (datetime_now ev (timezone (timedelta 5 30)) w2) =
           zero_pad 4 (year (wall_clock ev (trace w2) (timedelta 5 30))) @ ''-''
             @ zero_pad 2 (month (wall_clock ev (trace w2) (timedelta 5 30))) @ ''-''
             @ zero_pad 2 (day (wall_clock ev (trace w2) (timedelta 5 30))) @ ''T''
             @ format_time (hour (wall_clock ev (trace w2) (timedelta 5 30)))
                 (minute (wall_clock ev (trace w2) (timedelta 5 30)))
                 (second (wall_clock ev (trace w2) (timedelta 5 30)))
                 (microsecond (wall_clock ev (trace w2) (timedelta 5 30)))
             @ ''+05:30''"
    by (rule isoformat_ist)
  show "\<forall>q \<in> set (http_gets (added_events (world st) (world st1))).
             req_url q = build_target_url base b p"
    using successful_job_requests[OF assms] by (auto simp: request_of_def)
qed

lemma ex_fetch:
  "job_fetch (server_always (Response 200 ''abc123\<newline>'' [])) ''http://h'' (Path ''out'') None [] 3
      ''3025'' ''windows'' (initial_state fresh_world)
   = Inr ((Some ''abc123\<newline>'', Some 200, Some []),
          emit (HttpGet (request_of ''http://h/3025/windows/latest_commits.txt'' None [] TIMEOUT))
            (print_out ''Fetching: http://h/3025/windows/latest_commits.txt -> out/3025/windows/latest_commits.txt''
               fresh_world))"
  apply (simp add: job_fetch_def initial_state_def)
  apply (subst fetch_url_ok)
    apply (simp_all add: server_always_def)
  apply (simp add: build_target_url_def rstrip_def local_path_of_def joinpath_def Path_def splitroot_def str_path_def)
  done

lemmas path_eval = build_target_url_def rstrip_def local_path_of_def meta_path_of_def joinpath_def
  Path_def splitroot_def str_path_def parent_def

lemmas fs_eval = write_file_def write_meta_def mkdir_parents_def write_text_def read_bytes_def
  read_text_def

lemma ex_job:
  "\<exists>st1. process_job (server_always (Response 200 ''abc123\<newline>'' [])) ''http://h'' (Path ''out'') None [] 3
      ''3025'' ''windows'' (initial_state fresh_world) = Inr st1"
  apply (simp only: process_job_fetch ex_fetch sum.case prod.case option.case)
  apply (simp add: fs_eval path_eval print_out_def emit_def fresh_world_def Let_def)
  done

theorem meta_json_contents_witness:
  "\<exists>st1. process_job (server_always (Response 200 ''abc123\<newline>'' [])) ''http://h'' (Path ''out'') None [] 3
            ''3025'' ''windows'' (initial_state fresh_world) = Inr st1
     \<and> files (world st1) (Path ''out/3025/windows/meta.json'') =
           Some (File (Json (JObject
             [(''build'', JString ''3025''),
              (''platform'', JString ''windows''),
              (''fetched_at'', JString ''2024-01-02T03:04:05+05:30''),
              (''source_url'', JString ''http://h/3025/windows/latest_commits.txt'')])))"
proof -
  from ex_job obtain st1 where
    ok: "process_job (server_always (Response 200 ''abc123\<newline>'' [])) ''http://h'' (Path ''out'') None [] 3
      ''3025'' ''windows'' (initial_state fresh_world) = Inr st1"
    by blast
  have ts: "isoformat (datetime_now (server_always (Response 200 ''abc123\<newline>'' [])) (timezone (timedelta 5 30))
              (emit (HttpGet (request_of ''http://h/3025/windows/latest_commits.txt'' None [] TIMEOUT))
                (print_out ''Fetching: http://h/3025/windows/latest_commits.txt -> out/3025/windows/latest_commits.txt''
                   fresh_world)))
            = ''2024-01-02T03:04:05+05:30''"
    by (simp add: isoformat_ist server_always_def example_clock_def format_time_def zero_pad_def
          str_nat.simps[of 2024] str_nat.simps[of 202] str_nat.simps[of 20] str_nat_digit digit_char_def)
  show ?thesis
    using meta_json_contents[OF ex_fetch ok] ok
    by (simp add: ts path_eval)
qed

subsection \<open>Persistence\<close>

lemma names_local_path:
  "names (local_path_of out_root b p) = names (parent (local_path_of out_root b p)) @ [''latest_commits.txt'']"
  "anchor (parent (local_path_of out_root b p)) = anchor (local_path_of out_root b p)"
  "names (meta_path_of out_root b p) = names (parent (local_path_of out_root b p)) @ [''meta.json'']"
  "anchor (meta_path_of out_root b p) = anchor (local_path_of out_root b p)"
  by (simp_all add: local_path_of_eq meta_path_of_eq parent_def)

lemma persisted_files:
  fixes c :: string and m :: json
  assumes res: "resolve fs1 (anchor (local_path_of out_root b p)) []
                  (names (parent (local_path_of out_root b p))) = None"
  defines "fs2 \<equiv> fs1(local_path_of out_root b p \<mapsto> File (Text c),
                       meta_path_of out_root b p \<mapsto> File (Json m))"
  shows "resolve fs2 (anchor (local_path_of out_root b p)) []
           (names (parent (local_path_of out_root b p))) = None"
    and "read_bytes (local_path_of out_root b p) fs2 = Inr (Text c)"
    and "read_bytes (meta_path_of out_root b p) fs2 = Inr (Json m)"
proof -
  show r2: "resolve fs2 (anchor (local_path_of out_root b p)) []
           (names (parent (local_path_of out_root b p))) = None"
    unfolding fs2_def using res by (simp add: resolve_update names_local_path)
  show "read_bytes (local_path_of out_root b p) fs2 = Inr (Text c)"
    using r2 by (intro read_bytes_written) (simp_all add: names_local_path fs2_def meta_neq_local[symmetric])
  show "read_bytes (meta_path_of out_root b p) fs2 = Inr (Json m)"
    using r2 by (intro read_bytes_written) (simp_all add: names_local_path fs2_def)
qed




lemmas job_eval = process_job_def fetch_url_def fetch_loop.simps[of _ _ _ 0] session_get_def
  fs_eval path_eval print_out_def print_err_def emit_def Let_def error_record_def




subsection \<open>A 200 answer is a success\<close>


lemma fetched_body_outcome:
  assumes f: "job_fetch ev base out_root auth hdrs r b p st = Inr ((Some c, status, rh), w2)"
  shows "case process_job ev base out_root auth hdrs r b p st of
           Inr st1 \<Rightarrow>
             errors st1 = errors st
             \<and> success_count st1 = success_count st + 1
             \<and> read_bytes (local_path_of out_root b p) (files (world st1)) = Inr (Text c)
         | Inl x \<Rightarrow>
             write_file (local_path_of out_root b p) c w2 = Inl x
             \<or> (\<exists>w3. write_file (local_path_of out_root b p) c w2 = Inr w3
                   \<and> write_meta ev (local_path_of out_root b p) b p (build_target_url base b p) w3
                       = Inl x)"
proof (cases "process_job ev base out_root auth hdrs r b p st")
  case (Inl x)
  then have "write_file (local_path_of out_root b p) c w2 = Inl x
              \<or> (\<exists>w3. write_file (local_path_of out_root b p) c w2 = Inr w3
                    \<and> write_meta ev (local_path_of out_root b p) b p (build_target_url base b p) w3
                        = Inl x)"
    by (simp add: process_job_fetch f split: sum.splits)
  then show ?thesis by (simp add: Inl)
next
  case (Inr st1)
  from process_job_success[OF f Inr] obtain fs1 where
    res: "resolve fs1 (anchor (local_path_of out_root b p)) []
            (names (parent (local_path_of out_root b p))) = None" and
    st1: "st1 = st\<lparr>success_count := success_count st + 1,
               world := print_out (''Saved '' @ str_path (local_path_of out_root b p)
                          @ '' ('' @ str_nat (length c) @ '' bytes)'')
                 (w2\<lparr>files := fs1(local_path_of out_root b p \<mapsto> File (Text c),
                                  meta_path_of out_root b p \<mapsto> File (Json (JObject
                                    (meta_record ev b p (build_target_url base b p) w2))))\<rparr>)\<rparr>"
    by blast
  have "read_bytes (local_path_of out_root b p) (files (world st1)) = Inr (Text c)"
    using persisted_files(2)[OF res] by (simp add: st1 print_out_def)
  then show ?thesis by (simp add: Inr st1)
qed





section \<open>The run over all jobs\<close>

text \<open>The nested loops are one loop over the cross product, builds outer.\<close>

lemma run_jobs_append:
  "run_jobs ev base out_root auth hdrs r (xs @ ys) st =
     (case run_jobs ev base out_root auth hdrs r xs st of
        Inl e \<Rightarrow> Inl e
      | Inr st1 \<Rightarrow> run_jobs ev base out_root auth hdrs r ys st1)"
  by (induction xs arbitrary: st) (auto split: sum.splits)

lemma platforms_loop_run_jobs:
  "platforms_loop ev base out_root auth hdrs r b ps st =
     run_jobs ev base out_root auth hdrs r (map (Pair b) ps) st"
  by (induction ps arbitrary: st) (auto split: sum.splits)

lemma builds_loop_run_jobs:
  "builds_loop ev base out_root auth hdrs r bs ps st =
     run_jobs ev base out_root auth hdrs r (List.product bs ps) st"
  by (induction bs arbitrary: st) (auto simp: run_jobs_append platforms_loop_run_jobs split: sum.splits)

lemma process_job_cases:
  obtains (raised) x where "job_fetch ev base out_root auth hdrs r b p st = Inl x"
      and "process_job ev base out_root auth hdrs r b p st = Inl x"
  | (failed) status rh w2 where "job_fetch ev base out_root auth hdrs r b p st = Inr ((None, status, rh), w2)"
      and "process_job ev base out_root auth hdrs r b p st =
             Inr (st\<lparr>errors := errors st @ [error_record b p (build_target_url base b p)
                         (failure_message (build_target_url base b p) r status)],
                     world := print_err (failure_message (build_target_url base b p) r status) w2\<rparr>)"
  | (fetched) c status rh w2 where
      "job_fetch ev base out_root auth hdrs r b p st = Inr ((Some c, status, rh), w2)"
proof (cases "job_fetch ev base out_root auth hdrs r b p st")
  case (Inl x)
  then show ?thesis using raised process_job_raised by blast
next
  case (Inr y)
  obtain content status rh w2 where y: "y = ((content, status, rh), w2)"
    by (metis prod.exhaust)
  show ?thesis
  proof (cases content)
    case None
    with Inr y show ?thesis using failed process_job_failed by blast
  next
    case (Some c)
    with Inr y show ?thesis using fetched by blast
  qed
qed

lemma process_job_accounting:
  assumes "process_job ev base out_root auth hdrs r b p st = Inr st1"
  shows "errors st1 = errors st @ (if job_failed ev base out_root auth hdrs r ((b, p), st)
                                   then [job_error_record ev base out_root auth hdrs r ((b, p), st)]
                                   else [])"
    and "success_count st1 = success_count st
           + (if job_failed ev base out_root auth hdrs r ((b, p), st) then 0 else 1)"
proof -
  have "errors st1 = errors st @ (if job_failed ev base out_root auth hdrs r ((b, p), st)
                                   then [job_error_record ev base out_root auth hdrs r ((b, p), st)]
                                   else [])
      \<and> success_count st1 = success_count st
           + (if job_failed ev base out_root auth hdrs r ((b, p), st) then 0 else 1)"
  proof (cases ev base out_root auth hdrs r b p st rule: process_job_cases)
    case (raised x)
    with assms show ?thesis by simp
  next
    case (failed status rh w2)
    with assms show ?thesis
      by (auto simp: job_failed_def job_error_record_def job_status_def)
  next
    case (fetched c status rh w2)
    from process_job_success[OF fetched assms] fetched show ?thesis
      by (auto simp: job_failed_def)
  qed
  then show "errors st1 = errors st @ (if job_failed ev base out_root auth hdrs r ((b, p), st)
                                   then [job_error_record ev base out_root auth hdrs r ((b, p), st)]
                                   else [])"
    and "success_count st1 = success_count st
           + (if job_failed ev base out_root auth hdrs r ((b, p), st) then 0 else 1)"
    by simp_all
qed

lemma process_job_raises:
  assumes "process_job ev base out_root auth hdrs r b p st = Inl x"
  shows "job_fetch ev base out_root auth hdrs r b p st = Inl x
       \<or> (\<exists>c status rh w2.
             job_fetch ev base out_root auth hdrs r b p st = Inr ((Some c, status, rh), w2)
             \<and> (write_file (local_path_of out_root b p) c w2 = Inl x
                  \<or> (\<exists>w3. write_file (local_path_of out_root b p) c w2 = Inr w3
                        \<and> write_meta ev (local_path_of out_root b p) b p (build_target_url base b p) w3
                            = Inl x)))"
proof (cases ev base out_root auth hdrs r b p st rule: process_job_cases)
  case (raised y)
  with assms show ?thesis by simp
next
  case (failed status rh w2)
  with assms show ?thesis by simp
next
  case (fetched c status rh w2)
  from fetched_body_outcome[OF fetched] assms fetched show ?thesis by simp
qed

lemma run_jobs_accounting:
  assumes "run_jobs ev base out_root auth hdrs r js st = Inr st'"
  shows "map fst (job_log ev base out_root auth hdrs r js st) = js
       \<and> errors st' = errors st
           @ map (job_error_record ev base out_root auth hdrs r)
               (filter (job_failed ev base out_root auth hdrs r)
                  (job_log ev base out_root auth hdrs r js st))
       \<and> success_count st' = success_count st
           + length (filter (\<lambda>x. \<not> job_failed ev base out_root auth hdrs r x)
                       (job_log ev base out_root auth hdrs r js st))"
  using assms
proof (induction js arbitrary: st)
  case Nil
  then show ?case by simp
next
  case (Cons j js)
  obtain b p where j: "j = (b, p)" by (cases j)
  from Cons.prems j obtain st1 where
    one: "process_job ev base out_root auth hdrs r b p st = Inr st1" and
    rest: "run_jobs ev base out_root auth hdrs r js st1 = Inr st'"
    by (auto split: sum.splits)
  note ih = Cons.IH[OF rest]
  note acc = process_job_accounting[OF one]
  show ?case
    using ih acc by (simp add: j one)
qed

lemma run_jobs_raises:
  assumes "run_jobs ev base out_root auth hdrs r js st = Inl x"
  shows "job_log ev base out_root auth hdrs r js st \<noteq> []
       \<and> (case last (job_log ev base out_root auth hdrs r js st) of
            ((b, p), s) \<Rightarrow> process_job ev base out_root auth hdrs r b p s = Inl x)"
  using assms
proof (induction js arbitrary: st)
  case Nil
  then show ?case by simp
next
  case (Cons j js)
  obtain b p where j: "j = (b, p)" by (cases j)
  show ?case
  proof (cases "process_job ev base out_root auth hdrs r b p st")
    case (Inl y)
    with Cons.prems j have "y = x" by simp
    with Inl show ?thesis by (simp add: j)
  next
    case (Inr st1)
    with Cons.prems j have "run_jobs ev base out_root auth hdrs r js st1 = Inl x" by simp
    from Cons.IH[OF this] show ?thesis by (simp add: j Inr)
  qed
qed

lemma job_log_prefix:
  "prefix (map fst (job_log ev base out_root auth hdrs r js st)) js"
proof (induction js arbitrary: st)
  case Nil
  then show ?case by simp
next
  case (Cons j js)
  obtain b p where j: "j = (b, p)" by (cases j)
  show ?case
    using Cons.IH by (cases "process_job ev base out_root auth hdrs r b p st") (simp_all add: j)
qed

text \<open>
  Claim C5, amended. The jobs that a run of the nested loops over builds \<open>bs\<close> and
  platforms \<open>ps\<close> starts are a prefix of the cross product (builds outer, platforms
  inner). When the run reaches its end, every job was started, the error list has grown
  by exactly one record per job whose fetch failed, in order, and by nothing for a job
  that succeeded, and \<^verbatim>\<open>success_count\<close> has grown by the number of the other jobs. A
  job whose fetch returns a failure (the status 401 or 403, or the attempts used up)
  never ends the run: it returns with exactly one more record, which holds the build,
  the platform, the URL and a message. A run that does not reach its end was ended by an
  exception that left the last started job, raised in its fetch or, after the fetch had
  returned a body, in \<^verbatim>\<open>write_file\<close> or \<^verbatim>\<open>write_meta\<close>; that job leaves no record and
  is not counted.
\<close>

theorem job_accounting:
  "prefix (map fst (job_log ev base out_root auth hdrs r (List.product bs ps) st)) (List.product bs ps)
   \<and> (case builds_loop ev base out_root auth hdrs r bs ps st of
        Inr st' \<Rightarrow>
          map fst (job_log ev base out_root auth hdrs r (List.product bs ps) st) = List.product bs ps
          \<and> errors st' = errors st
              @ map (job_error_record ev base out_root auth hdrs r)
                  (filter (job_failed ev base out_root auth hdrs r)
                     (job_log ev base out_root auth hdrs r (List.product bs ps) st))
          \<and> success_count st' = success_count st
              + length (filter (\<lambda>x. \<not> job_failed ev base out_root auth hdrs r x)
                          (job_log ev base out_root auth hdrs r (List.product bs ps) st))
      | Inl x \<Rightarrow>
          job_log ev base out_root auth hdrs r (List.product bs ps) st \<noteq> []
          \<and> (case last (job_log ev base out_root auth hdrs r (List.product bs ps) st) of
               ((b, p), s) \<Rightarrow>
                 process_job ev base out_root auth hdrs r b p s = Inl x
                 \<and> (job_fetch ev base out_root auth hdrs r b p s = Inl x
                      \<or> (\<exists>c status rh w2.
                            job_fetch ev base out_root auth hdrs r b p s = Inr ((Some c, status, rh), w2)
                            \<and> (write_file (local_path_of out_root b p) c w2 = Inl x
                                 \<or> (\<exists>w3. write_file (local_path_of out_root b p) c w2 = Inr w3
                                       \<and> write_meta ev (local_path_of out_root b p) b p
                                           (build_target_url base b p) w3 = Inl x))))))
   \<and> (\<forall>b p s. job_failed ev base out_root auth hdrs r ((b, p), s) \<longrightarrow>
         (\<exists>s1. process_job ev base out_root auth hdrs r b p s = Inr s1
            \<and> errors s1 = errors s @ [job_error_record ev base out_root auth hdrs r ((b, p), s)]
            \<and> success_count s1 = success_count s))
   \<and> (\<forall>b p s. \<exists>msg. job_error_record ev base out_root auth hdrs r ((b, p), s)
         = [(''build'', b), (''platform'', p), (''url'', build_target_url base b p), (''error'', msg)])"
proof (intro conjI)
  show "prefix (map fst (job_log ev base out_root auth hdrs r (List.product bs ps) st))
          (List.product bs ps)"
    by (rule job_log_prefix)
  show "case builds_loop ev base out_root auth hdrs r bs ps st of
        Inr st' \<Rightarrow>
          map fst (job_log ev base out_root auth hdrs r (List.product bs ps) st) = List.product bs ps
          \<and> errors st' = errors st
              @ map (job_error_record ev base out_root auth hdrs r)
                  (filter (job_failed ev base out_root auth hdrs r)
                     (job_log ev base out_root auth hdrs r (List.product bs ps) st))
          \<and> success_count st' = success_count st
              + length (filter (\<lambda>x. \<not> job_failed ev base out_root auth hdrs r x)
                          (job_log ev base out_root auth hdrs r (List.product bs ps) st))
      | Inl x \<Rightarrow>
          job_log ev base out_root auth hdrs r (List.product bs ps) st \<noteq> []
          \<and> (case last (job_log ev base out_root auth hdrs r (List.product bs ps) st) of
               ((b, p), s) \<Rightarrow>
                 process_job ev base out_root auth hdrs r b p s = Inl x
                 \<and> (job_fetch ev base out_root auth hdrs r b p s = Inl x
                      \<or> (\<exists>c status rh w2.
                            job_fetch ev base out_root auth hdrs r b p s = Inr ((Some c, status, rh), w2)
                            \<and> (write_file (local_path_of out_root b p) c w2 = Inl x
                                 \<or> (\<exists>w3. write_file (local_path_of out_root b p) c w2 = Inr w3
                                       \<and> write_meta ev (local_path_of out_root b p) b p
                                           (build_target_url base b p) w3 = Inl x)))))"
  proof (cases "run_jobs ev base out_root auth hdrs r (List.product bs ps) st")
    case (Inl x)
    from run_jobs_raises[OF this] show ?thesis
      by (auto simp: builds_loop_run_jobs Inl dest: process_job_raises)
  next
    case (Inr st')
    from run_jobs_accounting[OF this] show ?thesis
      by (simp add: builds_loop_run_jobs Inr)
  qed
  show "\<forall>b p s. job_failed ev base out_root auth hdrs r ((b, p), s) \<longrightarrow>
         (\<exists>s1. process_job ev base out_root auth hdrs r b p s = Inr s1
            \<and> errors s1 = errors s @ [job_error_record ev base out_root auth hdrs r ((b, p), s)]
            \<and> success_count s1 = success_count s)"
  proof (intro allI impI)
    fix b p s
    assume failed: "job_failed ev base out_root auth hdrs r ((b, p), s)"
    show "\<exists>s1. process_job ev base out_root auth hdrs r b p s = Inr s1
            \<and> errors s1 = errors s @ [job_error_record ev base out_root auth hdrs r ((b, p), s)]
            \<and> success_count s1 = success_count s"
    proof (cases ev base out_root auth hdrs r b p s rule: process_job_cases)
      case (raised x)
      with failed show ?thesis by (simp add: job_failed_def)
    next
      case (failed status rh w2)
      then show ?thesis by (simp add: job_error_record_def job_status_def)
    next
      case (fetched c status rh w2)
      with failed show ?thesis by (simp add: job_failed_def)
    qed
  qed
  show "\<forall>b p s. \<exists>msg. job_error_record ev base out_root auth hdrs r ((b, p), s)
         = [(''build'', b), (''platform'', p), (''url'', build_target_url base b p), (''error'', msg)]"
    by (simp add: job_error_record_def error_record_def)
qed

lemma ex_run:
  "\<exists>st'. builds_loop one_forbidden ''http://h'' (Path ''out'') None [] 3
            [''3025'', ''3026''] [''windows'', ''linux''] (initial_state fresh_world) = Inr st'
     \<and> success_count st' = 3
     \<and> map (take 2) (errors st') = [[(''build'', ''3026''), (''platform'', ''windows'')]]"
  by (simp add: job_eval one_forbidden_def initial_state_def fresh_world_def)

theorem job_accounting_witness:
  "\<exists>st'. builds_loop one_forbidden ''http://h'' (Path ''out'') None [] 3
            [''3025'', ''3026''] [''windows'', ''linux''] (initial_state fresh_world) = Inr st'
     \<and> map fst (job_log one_forbidden ''http://h'' (Path ''out'') None [] 3
                   (List.product [''3025'', ''3026''] [''windows'', ''linux'']) (initial_state fresh_world))
         = [(''3025'', ''windows''), (''3025'', ''linux''), (''3026'', ''windows''), (''3026'', ''linux'')]
     \<and> success_count st' = 3
     \<and> map (take 2) (errors st') = [[(''build'', ''3026''), (''platform'', ''windows'')]]"
proof -
  from ex_run obtain st' where
    run: "builds_loop one_forbidden ''http://h'' (Path ''out'') None [] 3
            [''3025'', ''3026''] [''windows'', ''linux''] (initial_state fresh_world) = Inr st'" and
    res: "success_count st' = 3"
      "map (take 2) (errors st') = [[(''build'', ''3026''), (''platform'', ''windows'')]]"
    by (elim exE conjE)
  from job_accounting[of one_forbidden "''http://h''" "Path ''out''" None "[]" 3
         "[''3025'', ''3026'']" "[''windows'', ''linux'']" "initial_state fresh_world",
         THEN conjunct2, THEN conjunct1, unfolded run sum.case, THEN conjunct1]
  have "map fst (job_log one_forbidden ''http://h'' (Path ''out'') None [] 3
                   (List.product [''3025'', ''3026''] [''windows'', ''linux'']) (initial_state fresh_world))
         = List.product [''3025'', ''3026''] [''windows'', ''linux'']" .
  with run res show ?thesis by simp
qed

lemma fetch_exception_ends_run:
  "builds_loop (server_always (Raised UnicodeEncodeError)) ''http://h'' (Path ''out'') None
      [(''Authorization'', ''Bearer t'')] 3 [''3025''] [''windows'', ''linux''] (initial_state fresh_world)
     = Inl (UnicodeEncodeError,
            fresh_world\<lparr>trace :=
              [Stdout ''Fetching: http://h/3025/windows/latest_commits.txt -> out/3025/windows/latest_commits.txt'',
               HttpGet (request_of ''http://h/3025/windows/latest_commits.txt'' None
                          [(''Authorization'', ''Bearer t'')] TIMEOUT)]\<rparr>)"
  by (simp add: job_eval server_always_def initial_state_def fresh_world_def request_of_def TIMEOUT_def)

text \<open>
  Claim C5 as stated, for every run, fails: the script catches no exception of the
  filesystem. Where \<^verbatim>\<open>out\<close> is a regular file, the first job fetches its body, the
  creation of its directory raises \<^verbatim>\<open>NotADirectoryError\<close> and the run ends there: of the
  two jobs only the first was started, and it neither reached success nor left a record.
\<close>

theorem persistence_error_ends_run:
  "builds_loop (server_always (Response 200 ''abc123\<newline>'' [])) ''http://h'' (Path ''out'') None [] 3
      [''3025''] [''windows'', ''linux''] (initial_state blocked_world)
     = Inl (NotADirectoryError,
            blocked_world\<lparr>trace :=
              [Stdout ''Fetching: http://h/3025/windows/latest_commits.txt -> out/3025/windows/latest_commits.txt'',
               HttpGet (request_of ''http://h/3025/windows/latest_commits.txt'' None [] TIMEOUT)]\<rparr>)
   \<and> List.product [''3025''] [''windows'', ''linux''] = [(''3025'', ''windows''), (''3025'', ''linux'')]
   \<and> map fst (job_log (server_always (Response 200 ''abc123\<newline>'' [])) ''http://h'' (Path ''out'') None [] 3
                 (List.product [''3025''] [''windows'', ''linux'']) (initial_state blocked_world))
       = [(''3025'', ''windows'')]"
  by (simp add: job_eval server_always_def initial_state_def blocked_world_def request_of_def TIMEOUT_def)

section \<open>How the process ends\<close>

text \<open>
  After the loops \<^verbatim>\<open>main\<close> reports. Without errors it exits with 0 and writes nothing.
  With errors it writes \<^verbatim>\<open>fetch_errors.json\<close> and exits with 2 when the output directory
  exists; when it does not, the write raises and the error list is lost. (The lemmas
  that say when the write raises are for an output root without \<^verbatim>\<open>..\<close>.)
\<close>

lemma main_report:
  "\<exists>auth hdrs w1.
     main ev a w0 =
       (case builds_loop ev (rstrip (CHR ''/'') (base_url a)) (Path (out a)) auth hdrs (retries a)
               (builds a) (platforms a) (initial_state w1) of
          Inl (e, w) \<Rightarrow> (Uncaught e, w)
        | Inr st \<Rightarrow> report (Path (out a)) st)
     \<and> files w1 = files w0 \<and> http_gets (trace w1) = http_gets (trace w0)"
  unfolding main_def report_def initial_state_def Let_def
  by (intro exI conjI, rule refl) (simp_all add: print_err_def)

lemma err_path_names:
  "names (joinpath out_root ''fetch_errors.json'') = names out_root @ [''fetch_errors.json'']"
  "anchor (joinpath out_root ''fetch_errors.json'') = anchor out_root"
  by (simp_all add: joinpath_def)

lemma report_no_errors:
  assumes "errors st = []"
  shows "fst (report out_root st) = Exit 0" and "files (snd (report out_root st)) = files (world st)"
  using assms by (simp_all add: report_def Let_def print_out_def)

lemma report_errors_written:
  assumes "errors st \<noteq> []" and "''..'' \<notin> set (names out_root)"
    and "resolve (files (world st)) (anchor out_root) [] (names out_root) = None"
    and "files (world st) (joinpath out_root ''fetch_errors.json'') \<noteq> Some Directory"
  shows "fst (report out_root st) = Exit 2"
    and "files (snd (report out_root st)) =
           (files (world st))(joinpath out_root ''fetch_errors.json''
              \<mapsto> File (Json (JArray (map dict_json (errors st)))))"
proof -
  have "write_text (joinpath out_root ''fetch_errors.json'')
          (Json (JArray (map dict_json (errors st)))) (files (world st))
        = Inr ((files (world st))(joinpath out_root ''fetch_errors.json''
              \<mapsto> File (Json (JArray (map dict_json (errors st))))))"
    using assms(3,4) by (intro write_text_ok) (simp_all add: err_path_names)
  then show "fst (report out_root st) = Exit 2"
    and "files (snd (report out_root st)) =
           (files (world st))(joinpath out_root ''fetch_errors.json''
              \<mapsto> File (Json (JArray (map dict_json (errors st)))))"
    using assms(1) by (simp_all add: report_def Let_def print_out_def print_err_def)
qed

lemma report_errors_lost:
  assumes "errors st \<noteq> []" and "''..'' \<notin> set (names out_root)"
    and "resolve (files (world st)) (anchor out_root) [] (names out_root) = Some e"
  shows "fst (report out_root st) = Uncaught e"
    and "files (snd (report out_root st)) = files (world st)"
proof -
  have "write_text (joinpath out_root ''fetch_errors.json'')
          (Json (JArray (map dict_json (errors st)))) (files (world st)) = Inl e"
    using assms(3) by (intro write_text_missing_dir) (simp_all add: err_path_names)
  then show "fst (report out_root st) = Uncaught e"
    and "files (snd (report out_root st)) = files (world st)"
    using assms(1) by (simp_all add: report_def Let_def print_out_def)
qed

lemma process_job_no_attempt:
  assumes "r \<le> 0"
  shows "process_job ev base out_root auth hdrs r b p st =
           Inr (st\<lparr>errors := errors st @ [error_record b p (build_target_url base b p)
                       (''FAILED to fetch '' @ build_target_url base b p @ '' after '' @ str_int r
                          @ '' attempts'')],
                   world := print_err (''FAILED to fetch '' @ build_target_url base b p @ '' after ''
                                         @ str_int r @ '' attempts'')
                              (print_out (''Fetching: '' @ build_target_url base b p @ '' -> ''
                                 @ str_path (local_path_of out_root b p)) (world st))\<rparr>)"
  using assms by (simp add: process_job_fetch job_fetch_def fetch_url_no_attempt)

lemma run_jobs_no_attempt:
  assumes "r \<le> 0"
  shows "\<exists>st'. run_jobs ev base out_root auth hdrs r js st = Inr st'
           \<and> errors st' = errors st
               @ map (\<lambda>(b, p). error_record b p (build_target_url base b p)
                       (''FAILED to fetch '' @ build_target_url base b p @ '' after '' @ str_int r
                          @ '' attempts'')) js
           \<and> success_count st' = success_count st
           \<and> files (world st') = files (world st)
           \<and> http_gets (trace (world st')) = http_gets (trace (world st))"
proof (induction js arbitrary: st)
  case Nil
  then show ?case by simp
next
  case (Cons j js)
  obtain b p where j: "j = (b, p)" by (cases j)
  let ?st1 = "st\<lparr>errors := errors st @ [error_record b p (build_target_url base b p)
                       (''FAILED to fetch '' @ build_target_url base b p @ '' after '' @ str_int r
                          @ '' attempts'')],
                   world := print_err (''FAILED to fetch '' @ build_target_url base b p @ '' after ''
                                         @ str_int r @ '' attempts'')
                              (print_out (''Fetching: '' @ build_target_url base b p @ '' -> ''
                                 @ str_path (local_path_of out_root b p)) (world st))\<rparr>"
  from Cons.IH[of ?st1] obtain st' where
    "run_jobs ev base out_root auth hdrs r js ?st1 = Inr st'"
    "errors st' = errors ?st1
               @ map (\<lambda>(b, p). error_record b p (build_target_url base b p)
                       (''FAILED to fetch '' @ build_target_url base b p @ '' after '' @ str_int r
                          @ '' attempts'')) js"
    "success_count st' = success_count ?st1"
    "files (world st') = files (world ?st1)"
    "http_gets (trace (world st')) = http_gets (trace (world ?st1))"
    by (elim exE conjE)
  then show ?case
    by (intro exI[of _ st']) (simp add: j process_job_no_attempt[OF assms] print_err_def print_out_def)
qed

lemma http_gets_report: "http_gets (trace (snd (report out_root st))) = http_gets (trace (world st))"
  by (simp add: report_def Let_def print_out_def print_err_def split: sum.splits)

lemma main_zero_retries:
  assumes "retries a \<le> 0" and "builds a \<noteq> []" and "platforms a \<noteq> []"
    and dots: "''..'' \<notin> set (names (Path (out a)))"
  shows "http_gets (trace (snd (main ev a w0))) = http_gets (trace w0)"
    and "resolve (files w0) (anchor (Path (out a))) [] (names (Path (out a))) = Some e
           \<Longrightarrow> fst (main ev a w0) = Uncaught e"
    and "resolve (files w0) (anchor (Path (out a))) [] (names (Path (out a))) = None
           \<Longrightarrow> files w0 (joinpath (Path (out a)) ''fetch_errors.json'') \<noteq> Some Directory
           \<Longrightarrow> fst (main ev a w0) = Exit 2"
proof -
  let ?base = "rstrip (CHR ''/'') (base_url a)"
  from main_report[of ev a w0] obtain auth hdrs w1 where
    m: "main ev a w0 =
       (case builds_loop ev ?base (Path (out a)) auth hdrs (retries a)
               (builds a) (platforms a) (initial_state w1) of
          Inl (e, w) \<Rightarrow> (Uncaught e, w)
        | Inr st \<Rightarrow> report (Path (out a)) st)" and
    w1: "files w1 = files w0" "http_gets (trace w1) = http_gets (trace w0)"
    by (elim exE conjE)
  from run_jobs_no_attempt[OF assms(1), of ev ?base "Path (out a)" auth hdrs
         "List.product (builds a) (platforms a)" "initial_state w1"]
  obtain st' where
    run: "builds_loop ev ?base (Path (out a)) auth hdrs (retries a) (builds a) (platforms a)
            (initial_state w1) = Inr st'" and
    errs: "errors st' = errors (initial_state w1)
               @ map (\<lambda>(b, p). error_record b p (build_target_url ?base b p)
                       (''FAILED to fetch '' @ build_target_url ?base b p @ '' after ''
                          @ str_int (retries a) @ '' attempts''))
                   (List.product (builds a) (platforms a))" and
    fs: "files (world st') = files (world (initial_state w1))" and
    gets: "http_gets (trace (world st')) = http_gets (trace (world (initial_state w1)))"
    by (auto simp: builds_loop_run_jobs)
  from assms(2,3) have "List.product (builds a) (platforms a) \<noteq> []"
    by (cases "builds a"; cases "platforms a") simp_all
  with errs have ne: "errors st' \<noteq> []" by simp
  have fs': "files (world st') = files w0"
    using fs w1 by (simp add: initial_state_def)
  have main': "main ev a w0 = report (Path (out a)) st'"
    by (simp add: m run)
  show "http_gets (trace (snd (main ev a w0))) = http_gets (trace w0)"
    using gets w1 by (simp add: main' http_gets_report initial_state_def)
  show "fst (main ev a w0) = Uncaught e"
    if "resolve (files w0) (anchor (Path (out a))) [] (names (Path (out a))) = Some e"
    using that report_errors_lost(1)[OF ne dots, of e] by (simp add: main' fs')
  show "fst (main ev a w0) = Exit 2"
    if "resolve (files w0) (anchor (Path (out a))) [] (names (Path (out a))) = None"
      and "files w0 (joinpath (Path (out a)) ''fetch_errors.json'') \<noteq> Some Directory"
    using that report_errors_written(1)[OF ne dots] by (simp add: main' fs')
qed

text \<open>
  Claim C4 says that a run with a failed job writes \<^verbatim>\<open>fetch_errors.json\<close> and exits with
  status 2. \<^verbatim>\<open>write_file\<close> creates the directories it needs, but the write of
  \<^verbatim>\<open>fetch_errors.json\<close> does not: when the output directory does not exist yet and no
  job has succeeded (here: an empty filesystem, the default \<^verbatim>\<open>--out data/builds\<close>, one
  job answered with 401), \<^verbatim>\<open>write_text\<close> raises \<^verbatim>\<open>FileNotFoundError\<close>, nothing is
  written and the exit status is 1.
\<close>

theorem errors_file_without_out_dir:
  "fst (main (server_always (Response 401 [] [])) example_args fresh_world) = Uncaught FileNotFoundError
   \<and> exit_status (fst (main (server_always (Response 401 [] [])) example_args fresh_world)) = 1
   \<and> files (snd (main (server_always (Response 401 [] [])) example_args fresh_world)) = Map.empty"
  by (simp add: main_def example_args_def DEFAULT_RETRIES_def server_always_def truthy_def
        job_eval fresh_world_def exit_status_def warning_text_def)

theorem errors_file_without_out_dir_witness:
  "exit_status (fst (main (server_always (Response 401 [] [])) example_args fresh_world)) \<noteq> 2"
  using errors_file_without_out_dir by (simp add: exit_status_def)

text \<open>
  Claim C10 says that with \<^verbatim>\<open>--retries 0\<close> no request is made, every job is recorded as
  failed and the process exits with status 2. No request is made and every job fails
  (\<open>main_zero_retries\<close>), but since no job creates the output directory, the write of
  \<^verbatim>\<open>fetch_errors.json\<close> raises \<^verbatim>\<open>FileNotFoundError\<close> unless the directory existed
  before: on an empty filesystem the exit status is 1.
\<close>

theorem zero_retries_without_out_dir:
  "fst (main (server_always (Response 200 ''abc123\<newline>'' [])) (example_args\<lparr>retries := 0\<rparr>) fresh_world)
     = Uncaught FileNotFoundError
   \<and> exit_status (fst (main (server_always (Response 200 ''abc123\<newline>'' [])) (example_args\<lparr>retries := 0\<rparr>)
        fresh_world)) = 1
   \<and> http_gets (trace (snd (main (server_always (Response 200 ''abc123\<newline>'' []))
        (example_args\<lparr>retries := 0\<rparr>) fresh_world))) = []"
  by (simp add: main_def example_args_def DEFAULT_RETRIES_def server_always_def truthy_def
        job_eval fresh_world_def exit_status_def warning_text_def)

theorem zero_retries_without_out_dir_witness:
  "exit_status (fst (main (server_always (Response 200 ''abc123\<newline>'' [])) (example_args\<lparr>retries := 0\<rparr>)
        fresh_world)) \<noteq> 2"
  using zero_retries_without_out_dir by (simp add: exit_status_def)


end
